theory Spec2Isabelle
  imports Main
begin

section \<open>JavaScript values, objects, errors and promises\<close>

text \<open>
  The binding is JavaScript. Option objects are dictionaries from property names to
  values; the values that occur in them are modelled by \<open>jsval\<close> (numbers are the
  integer-valued ones, as in the defaults \<open>2048\<close> and \<open>100\<close>). A string is the list
  of its code units, so \<open>length\<close> is the \<open>.length\<close> of the source.
\<close>

datatype jsval = JUndefined | JNull | JBool bool | JNum int | JStr string

text \<open>Truthiness, as \<open>if (v)\<close> reads a value.\<close>

fun truthy :: "jsval \<Rightarrow> bool" where
  "truthy JUndefined = False"
| "truthy JNull = False"
| "truthy (JBool b) = b"
| "truthy (JNum n) = (n \<noteq> 0)"
| "truthy (JStr s) = (s \<noteq> [])"

text \<open>
  What \<open>"..." + v\<close> appends for a value \<open>v\<close>. How a number is printed is left to the
  runtime (\<open>numberToString\<close>).
\<close>

fun to_string :: "(int \<Rightarrow> string) \<Rightarrow> jsval \<Rightarrow> string" where
  "to_string numberToString JUndefined = ''undefined''"
| "to_string numberToString JNull = ''null''"
| "to_string numberToString (JBool b) = (if b then ''true'' else ''false'')"
| "to_string numberToString (JNum n) = numberToString n"
| "to_string numberToString (JStr s) = s"

datatype js_error = Error string | AssertionError string | Thrown jsval

datatype 'a promise = Pending | Fulfilled 'a | Rejected js_error

type_synonym js_object = "string \<rightharpoonup> jsval"

text \<open>Reading a property: an absent key reads as \<open>undefined\<close>.\<close>

definition property :: "js_object \<Rightarrow> string \<Rightarrow> jsval" where
  "property obj key = (case obj key of None \<Rightarrow> JUndefined | Some v \<Rightarrow> v)"

text \<open>
  Object spread \<open>{...a, ...b}\<close>: every key of \<open>b\<close> with \<open>b\<close>'s value, every other key
  of \<open>a\<close> with \<open>a\<close>'s value.
\<close>

definition spread :: "js_object \<Rightarrow> js_object \<Rightarrow> js_object" where
  "spread a b = a ++ b"

section \<open>The model provider\<close>

text \<open>
  \<open>provider.generate(message, options, callback)\<close> is foreign code. What this file can
  observe of one call is a conversation: the provider calls the callback with
  \<open>(tokenId, text, fullText)\<close>, receives the callback's boolean, and goes on as it
  decides from that boolean, until its promise resolves with the full text, rejects, or
  stays pending. \<open>generation\<close> is that conversation, \<open>Token\<close> carrying the provider's
  continuation for either answer. The callback's answer is advice: the continuation for
  \<open>false\<close> is as free as the one for \<open>true\<close>. A conversation is finite, and all
  callback invocations come before the promise settles.
\<close>

datatype generation =
    Token int string string "bool \<Rightarrow> generation"
  | Returns string
  | Throws js_error
  | Hangs

record provider =
  modelName :: string
  generate :: "string \<Rightarrow> js_object \<Rightarrow> generation"

type_synonym token = "int \<times> string \<times> string"

text \<open>
  Running a conversation against a callback that owns a state \<open>'s\<close>. Beside the way
  the promise settles and the callback's last state, the run keeps the provider's record
  of it: for each invocation the arguments, the callback's state at the call, and the
  boolean the callback handed back.
\<close>

primrec run_generate ::
  "generation \<Rightarrow> (int \<Rightarrow> string \<Rightarrow> string \<Rightarrow> 's \<Rightarrow> bool \<times> 's) \<Rightarrow> 's
     \<Rightarrow> (token \<times> 's \<times> bool) list \<times> string promise \<times> 's" where
  "run_generate (Returns r) cb s = ([], Fulfilled r, s)"
| "run_generate (Throws e) cb s = ([], Rejected e, s)"
| "run_generate Hangs cb s = ([], Pending, s)"
| "run_generate (Token tokenId text fullText k) cb s =
     (case cb tokenId text fullText s of
        (continue, s') \<Rightarrow>
          (case run_generate (k continue) cb s' of
             (calls, settled, s'') \<Rightarrow>
               (((tokenId, text, fullText), s, continue) # calls, settled, s'')))"

definition call_text :: "token \<times> 's \<times> bool \<Rightarrow> string" where
  "call_text c = fst (snd (fst c))"

definition call_flag :: "token \<times> 's \<times> bool \<Rightarrow> bool" where
  "call_flag c = snd (snd c)"

section \<open>createCompletion\<close>

record usage_counts =
  prompt_tokens :: nat
  completion_tokens :: nat
  total_tokens :: nat

record chat_message =
  role :: string
  content :: string

record completion_result =
  llmodel :: string
  usage :: usage_counts
  message :: chat_message

text \<open>
  The caller's \<open>onToken\<close> hook is a JavaScript function: it may keep state of its own
  (\<open>'w\<close>) and returns any value, or none (\<open>undefined\<close>). A hook that throws would
  throw into the provider's foreign code and is not modelled.
\<close>

type_synonym 'w hook = "int \<Rightarrow> string \<Rightarrow> string \<Rightarrow> 'w \<Rightarrow> jsval \<times> 'w"

record 'w completion_options =
  settings :: js_object
  onToken :: "'w hook option"

text \<open>
  \<open>defaultCompletionOptions = { verbose: false, ...DEFAULT_PROMPT_CONTEXT }\<close>; the
  constant \<open>DEFAULT_PROMPT_CONTEXT\<close> lives in \<open>config.js\<close> and is a parameter here.
\<close>

definition defaultCompletionOptions :: "js_object \<Rightarrow> js_object" where
  "defaultCompletionOptions DEFAULT_PROMPT_CONTEXT =
     spread [''verbose'' \<mapsto> JBool False] DEFAULT_PROMPT_CONTEXT"

text \<open>The parameter default \<open>options = defaultCompletionOptions\<close>.\<close>

definition options_or_default :: "js_object \<Rightarrow> 'w completion_options option \<Rightarrow> 'w completion_options" where
  "options_or_default DEFAULT_PROMPT_CONTEXT opts =
     (case opts of
        None \<Rightarrow> \<lparr>settings = defaultCompletionOptions DEFAULT_PROMPT_CONTEXT, onToken = None\<rparr>
      | Some options \<Rightarrow> options)"

text \<open>
  The state the token callback of \<open>createCompletion\<close> works on: its counter, the console
  it may write to, and the state of the caller's hook.
\<close>

record 'w completion_state =
  tokensGenerated :: nat
  console :: "(int \<times> string) list"
  world :: 'w

definition token_callback ::
  "'w completion_options \<Rightarrow> js_object \<Rightarrow> int \<Rightarrow> string \<Rightarrow> string
     \<Rightarrow> 'w completion_state \<Rightarrow> bool \<times> 'w completion_state" where
  "token_callback options optionsWithDefaults tokenId text fullText s =
     (let s1 = (if truthy (property optionsWithDefaults ''verbose'')
                then s\<lparr>console := console s @ [(tokenId, text)]\<rparr> else s)
      in case onToken options of
           None \<Rightarrow> (True, s1\<lparr>tokensGenerated := tokensGenerated s1 + 1\<rparr>)
         | Some hook \<Rightarrow>
             (case hook tokenId text fullText (world s1) of
                (v, w') \<Rightarrow>
                  (v \<noteq> JBool False,
                   s1\<lparr>world := w', tokensGenerated := tokensGenerated s1 + 1\<rparr>)))"

text \<open>
  \<open>optionsWithDefaults = { ...defaultCompletionOptions, ...options }\<close>, as far as the
  provider and the \<open>verbose\<close> test read it.
\<close>

definition optionsWithDefaults :: "js_object \<Rightarrow> 'w completion_options option \<Rightarrow> js_object" where
  "optionsWithDefaults DEFAULT_PROMPT_CONTEXT opts =
     spread (defaultCompletionOptions DEFAULT_PROMPT_CONTEXT)
       (settings (options_or_default DEFAULT_PROMPT_CONTEXT opts))"

text \<open>
  One call of \<open>createCompletion\<close>: the calls of \<open>provider.generate\<close> it made, the
  provider's record of the callback invocations, how \<open>provider.generate\<close> settled, how
  the promise of \<open>createCompletion\<close> settles, and the callback's last state.
\<close>

record 'w completion_run =
  generate_calls :: "(string \<times> js_object) list"
  invocations :: "(token \<times> 'w completion_state \<times> bool) list"
  response :: "string promise"
  returned :: "completion_result promise"
  final :: "'w completion_state"

definition createCompletion ::
  "js_object \<Rightarrow> provider \<Rightarrow> string \<Rightarrow> 'w completion_options option \<Rightarrow> 'w
     \<Rightarrow> 'w completion_run" where
  "createCompletion DEFAULT_PROMPT_CONTEXT provider msg opts w =
     (let options = options_or_default DEFAULT_PROMPT_CONTEXT opts;
          merged = optionsWithDefaults DEFAULT_PROMPT_CONTEXT opts
      in case run_generate (generate provider msg merged)
                (token_callback options merged)
                \<lparr>tokensGenerated = 0, console = [], world = w\<rparr> of
           (calls, settled, s) \<Rightarrow>
             \<lparr>generate_calls = [(msg, merged)],
              invocations = calls,
              response = settled,
              returned =
                (case settled of
                   Pending \<Rightarrow> Pending
                 | Rejected e \<Rightarrow> Rejected e
                 | Fulfilled text \<Rightarrow>
                     Fulfilled
                       \<lparr>llmodel = modelName provider,
                        usage = \<lparr>prompt_tokens = length msg,
                                 completion_tokens = tokensGenerated s,
                                 total_tokens = length msg + tokensGenerated s\<rparr>,
                        message = \<lparr>role = ''assistant'', content = text\<rparr>\<rparr>),
              final = s\<rparr>)"

text \<open>What the caller's hook answered at an invocation the provider recorded.\<close>

definition hook_answer ::
  "'w completion_options \<Rightarrow> token \<times> 'w completion_state \<times> bool \<Rightarrow> jsval option" where
  "hook_answer options c =
     (case onToken options of
        None \<Rightarrow> None
      | Some hook \<Rightarrow>
          (case c of ((tokenId, text, fullText), s, flag) \<Rightarrow>
             Some (fst (hook tokenId text fullText (world s)))))"

section \<open>createCompletionStream\<close>

text \<open>
  The \<open>PassThrough\<close> stream and the promise are observed through what happens to them,
  in the order it happens: a chunk pushed, the caller's hook consulted (with its
  answer), \<open>push(null)\<close>, \<open>emit("end")\<close>, and the settling of the promise \<open>result\<close>.
  What a reader of the stream receives of the pushed chunks is modelled with
  \<open>createCompletionGenerator\<close> below.
\<close>

datatype event =
    Push string
  | Consult int string string jsval
  | PushNull
  | EmitEnd
  | ResultSettled

record 'h stream_world =
  history :: "event list"
  caller :: 'h

text \<open>The \<open>onToken\<close> that \<open>createCompletionStream\<close> hands to \<open>createCompletion\<close>.\<close>

definition stream_onToken :: "'h hook option \<Rightarrow> 'h stream_world hook" where
  "stream_onToken user tokenId text fullText w =
     (let w1 = w\<lparr>history := history w @ [Push text]\<rparr>
      in case user of
           None \<Rightarrow> (JUndefined, w1)
         | Some hook \<Rightarrow>
             (case hook tokenId text fullText (caller w1) of
                (v, h') \<Rightarrow>
                  (v, w1\<lparr>history := history w1 @ [Consult tokenId text fullText v],
                          caller := h'\<rparr>)))"

record 'h completion_stream =
  timeline :: "event list"
  result :: "completion_result promise"
  run :: "'h stream_world completion_run"

text \<open>
  \<open>createCompletion(...).then(result => { push(null); emit("end"); return result })\<close>:
  the handler runs only when the inner promise is fulfilled, and \<open>result\<close> settles
  after the handler has returned; a rejection passes the handler by.
\<close>

definition createCompletionStream ::
  "js_object \<Rightarrow> provider \<Rightarrow> string \<Rightarrow> 'h completion_options option \<Rightarrow> 'h
     \<Rightarrow> 'h completion_stream" where
  "createCompletionStream DEFAULT_PROMPT_CONTEXT provider msg opts h =
     (let options = options_or_default DEFAULT_PROMPT_CONTEXT opts;
          r = createCompletion DEFAULT_PROMPT_CONTEXT provider msg
                (Some \<lparr>settings = settings options,
                       onToken = Some (stream_onToken (onToken options))\<rparr>)
                \<lparr>history = [], caller = h\<rparr>;
          pushed = history (world (final r))
      in case returned r of
           Fulfilled res \<Rightarrow>
             \<lparr>timeline = pushed @ [PushNull, EmitEnd, ResultSettled],
              result = Fulfilled res, run = r\<rparr>
         | Rejected e \<Rightarrow>
             \<lparr>timeline = pushed @ [ResultSettled], result = Rejected e, run = r\<rparr>
         | Pending \<Rightarrow>
             \<lparr>timeline = pushed, result = Pending, run = r\<rparr>)"

text \<open>The chunks pushed on the stream, and whether end-of-stream was signalled.\<close>

fun chunks :: "event list \<Rightarrow> string list" where
  "chunks [] = []"
| "chunks (Push text # es) = text # chunks es"
| "chunks (e # es) = chunks es"

definition stream_ended :: "event list \<Rightarrow> bool" where
  "stream_ended es = (PushNull \<in> set es)"

definition is_token_event :: "event \<Rightarrow> bool" where
  "is_token_event e = (case e of Push t \<Rightarrow> True | Consult i t f v \<Rightarrow> True | _ \<Rightarrow> False)"

section \<open>createCompletionGenerator\<close>

text \<open>
  \<open>for await (const chunk of completion.tokens) yield chunk\<close> reads the stream through
  its async iterator. The stream keeps the texts pushed and not yet read in a buffer; an
  empty text adds nothing to it. Whenever the reader gets its turn it receives the whole
  buffer as one chunk, if there is any. It leaves the loop at end-of-stream, once the
  buffer is drained, and on a stream that never ends it stays suspended. When the
  reader's turns fall is decided by the event loop, not by this file: \<open>turn j\<close> says
  whether the reader runs between push number \<open>j\<close> (counted from \<open>0\<close>) and the next
  one. A provider that calls the callback synchronously leaves it no turn.
  \<open>for_await\<close> starts from the texts buffered so far and returns the chunks received
  and whether the loop was left.
\<close>

definition flush :: "string \<Rightarrow> string list" where
  "flush buffer = (if buffer = [] then [] else [buffer])"

fun for_await :: "(nat \<Rightarrow> bool) \<Rightarrow> string \<Rightarrow> event list \<Rightarrow> string list \<times> bool" where
  "for_await turn buffer [] = (flush buffer, False)"
| "for_await turn buffer (Push text # es) =
     (if turn 0
      then (case for_await (\<lambda>j. turn (Suc j)) [] es of
              (ys, left) \<Rightarrow> (flush (buffer @ text) @ ys, left))
      else for_await (\<lambda>j. turn (Suc j)) (buffer @ text) es)"
| "for_await turn buffer (PushNull # es) = (flush buffer, True)"
| "for_await turn buffer (e # es) = for_await turn buffer es"

text \<open>What such a reader receives from a stream with the given history.\<close>

definition delivered :: "(nat \<Rightarrow> bool) \<Rightarrow> event list \<Rightarrow> string list" where
  "delivered turn es = fst (for_await turn [] es)"

datatype 'a finish = Returned 'a | Raised js_error | Suspended

record generator_run =
  yielded :: "string list"
  finish :: "completion_result finish"

definition createCompletionGenerator ::
  "(nat \<Rightarrow> bool) \<Rightarrow> js_object \<Rightarrow> provider \<Rightarrow> string \<Rightarrow> 'h completion_options option \<Rightarrow> 'h
     \<Rightarrow> generator_run" where
  "createCompletionGenerator turn DEFAULT_PROMPT_CONTEXT provider msg opts h =
     (let completion = createCompletionStream DEFAULT_PROMPT_CONTEXT provider msg opts h
      in case for_await turn [] (timeline completion) of
           (ys, left) \<Rightarrow>
             \<lparr>yielded = ys,
              finish =
                (if left
                 then (case result completion of
                         Fulfilled res \<Rightarrow> Returned res
                       | Rejected e \<Rightarrow> Raised e
                       | Pending \<Rightarrow> Suspended)
                 else Suspended)\<rparr>)"

section \<open>loadModel\<close>

text \<open>
  What \<open>loadModel\<close> takes from elsewhere: the two default directories of
  \<open>config.js\<close>, \<open>retrieveModel\<close> and \<open>appendBinSuffixIfMissing\<close> of \<open>util.js\<close>,
  \<open>existsSync\<close> of \<open>node:fs\<close>, the constructor of the native \<open>LLModel\<close>, and the
  runtime's printing of numbers. The model configuration \<open>'c\<close> and the native handle
  \<open>'l\<close> are opaque.
\<close>

record retrieve_options =
  modelPath :: jsval
  modelConfigFile :: jsval
  allowDownload :: jsval
  verbose :: jsval

record llm_options =
  model_name :: string
  model_path :: jsval
  library_path :: string
  device :: jsval
  nCtx :: jsval
  ngl :: jsval

record ('c, 'l) environment =
  DEFAULT_DIRECTORY :: string
  DEFAULT_LIBRARIES_DIRECTORY :: string
  retrieveModel :: "string \<Rightarrow> retrieve_options \<Rightarrow> 'c promise"
  existsSync :: "string \<Rightarrow> bool"
  appendBinSuffixIfMissing :: "string \<Rightarrow> string"
  LLModel :: "llm_options \<Rightarrow> js_error + 'l"
  numberToString :: "int \<Rightarrow> string"

datatype ('c, 'l) model = EmbeddingModel 'l 'c | InferenceModel 'l 'c

text \<open>What \<open>loadModel\<close> does to the outside, in the order it does it.\<close>

datatype 'c load_event =
    RetrieveModel string retrieve_options
  | ConsoleDebug llm_options 'c
  | NewLLModel llm_options

record ('c, 'l) load_run =
  effects :: "'c load_event list"
  loaded :: "('c, 'l) model promise"

text \<open>\<open>s.split(sep)\<close> for a one-character separator, and \<open>parts.join(sep)\<close>.\<close>

fun js_split :: "char \<Rightarrow> string \<Rightarrow> string list" where
  "js_split sep [] = [[]]"
| "js_split sep (c # cs) =
     (if c = sep then [] # js_split sep cs
      else (case js_split sep cs of
              [] \<Rightarrow> [[c]]
            | part # parts \<Rightarrow> (c # part) # parts))"

fun js_join :: "string \<Rightarrow> string list \<Rightarrow> string" where
  "js_join sep [] = []"
| "js_join sep [part] = part"
| "js_join sep (part # parts) = part @ sep @ js_join sep parts"

definition default_load_options :: "('c, 'l) environment \<Rightarrow> js_object" where
  "default_load_options env =
     [''modelPath'' \<mapsto> JStr (DEFAULT_DIRECTORY env),
      ''librariesPath'' \<mapsto> JStr (DEFAULT_LIBRARIES_DIRECTORY env),
      ''type'' \<mapsto> JStr ''inference'',
      ''allowDownload'' \<mapsto> JBool True,
      ''verbose'' \<mapsto> JBool False,
      ''device'' \<mapsto> JStr ''cpu'',
      ''nCtx'' \<mapsto> JNum 2048,
      ''ngl'' \<mapsto> JNum 100]"

definition loadOptions :: "('c, 'l) environment \<Rightarrow> js_object \<Rightarrow> js_object" where
  "loadOptions env options = spread (default_load_options env) options"

definition retrieve_arguments :: "js_object \<Rightarrow> retrieve_options" where
  "retrieve_arguments lo =
     \<lparr>modelPath = property lo ''modelPath'',
      modelConfigFile = property lo ''modelConfigFile'',
      allowDownload = property lo ''allowDownload'',
      verbose = property lo ''verbose''\<rparr>"

definition existingPaths :: "('c, 'l) environment \<Rightarrow> string \<Rightarrow> string" where
  "existingPaths env librariesPath =
     js_join '';'' (filter (existsSync env) (js_split CHR '';'' librariesPath))"

definition llmOptions :: "('c, 'l) environment \<Rightarrow> string \<Rightarrow> js_object \<Rightarrow> string \<Rightarrow> llm_options" where
  "llmOptions env modelName' lo librariesPath =
     \<lparr>model_name = appendBinSuffixIfMissing env modelName',
      model_path = property lo ''modelPath'',
      library_path = existingPaths env librariesPath,
      device = property lo ''device'',
      nCtx = property lo ''nCtx'',
      ngl = property lo ''ngl''\<rparr>"

definition loadModel ::
  "('c, 'l) environment \<Rightarrow> string \<Rightarrow> js_object \<Rightarrow> ('c, 'l) load_run" where
  "loadModel env modelName' options =
     (let lo = loadOptions env options;
          retrieving = [RetrieveModel modelName' (retrieve_arguments lo)]
      in case retrieveModel env modelName' (retrieve_arguments lo) of
           Pending \<Rightarrow> \<lparr>effects = retrieving, loaded = Pending\<rparr>
         | Rejected e \<Rightarrow> \<lparr>effects = retrieving, loaded = Rejected e\<rparr>
         | Fulfilled modelConfig \<Rightarrow>
             (case property lo ''librariesPath'' of
                JStr librariesPath \<Rightarrow>
                  (let opts = llmOptions env modelName' lo librariesPath;
                       debugging =
                         (if truthy (property lo ''verbose'')
                          then [ConsoleDebug opts modelConfig] else []);
                       done = retrieving @ debugging @ [NewLLModel opts]
                   in case LLModel env opts of
                        Inl e \<Rightarrow> \<lparr>effects = done, loaded = Rejected e\<rparr>
                      | Inr llmodel' \<Rightarrow>
                          (if property lo ''type'' = JStr ''embedding''
                           then \<lparr>effects = done,
                                 loaded = Fulfilled (EmbeddingModel llmodel' modelConfig)\<rparr>
                           else if property lo ''type'' = JStr ''inference''
                           then \<lparr>effects = done,
                                 loaded = Fulfilled (InferenceModel llmodel' modelConfig)\<rparr>
                           else \<lparr>effects = done,
                                 loaded =
                                   Rejected
                                     (Error (''Invalid model type: ''
                                        @ to_string (numberToString env)
                                            (property lo ''type'')))\<rparr>))
              | _ \<Rightarrow>
                  \<lparr>effects = retrieving,
                   loaded = Rejected (AssertionError ''Libraries path should be a string'')\<rparr>))"

section \<open>Notions used in the statements\<close>

text \<open>
  A record of callback invocations is a conversation with the callback \<open>cb\<close> from
  state \<open>s\<close> to state \<open>s'\<close> when each entry holds the state the callback was in, the
  boolean it returned there, and the next entry starts from the state it left.
\<close>

fun conversation ::
  "(int \<Rightarrow> string \<Rightarrow> string \<Rightarrow> 's \<Rightarrow> bool \<times> 's) \<Rightarrow> 's
     \<Rightarrow> (token \<times> 's \<times> bool) list \<Rightarrow> 's \<Rightarrow> bool" where
  "conversation cb s [] s' = (s' = s)"
| "conversation cb s (c # cs) s' =
     (case c of ((tokenId, text, fullText), sk, flag) \<Rightarrow>
        sk = s \<and> flag = fst (cb tokenId text fullText s)
          \<and> conversation cb (snd (cb tokenId text fullText s)) cs s')"

text \<open>What one callback invocation adds to the history of the stream.\<close>

definition stream_events ::
  "'h hook option \<Rightarrow> token \<times> 'h stream_world completion_state \<times> bool \<Rightarrow> event list" where
  "stream_events user c =
     (case c of ((tokenId, text, fullText), s, flag) \<Rightarrow>
        Push text #
          (case user of
             None \<Rightarrow> []
           | Some hook \<Rightarrow>
               [Consult tokenId text fullText
                  (fst (hook tokenId text fullText (caller (world s))))]))"

text \<open>What the settling of the inner promise adds to it.\<close>

definition settlement_events :: "'a promise \<Rightarrow> event list" where
  "settlement_events p =
     (case p of
        Fulfilled res \<Rightarrow> [PushNull, EmitEnd, ResultSettled]
      | Rejected e \<Rightarrow> [ResultSettled]
      | Pending \<Rightarrow> [])"

text \<open>The options \<open>createCompletionStream\<close> passes on: \<open>{...options, onToken: ...}\<close>.\<close>

definition wrapped ::
  "js_object \<Rightarrow> 'h completion_options option \<Rightarrow> 'h stream_world completion_options option" where
  "wrapped ctx opts =
     Some \<lparr>settings = settings (options_or_default ctx opts),
           onToken = Some (stream_onToken (onToken (options_or_default ctx opts)))\<rparr>"

text \<open>
  What \<open>provider.generate\<close> does when it is called with the message, the merged
  options and the token callback of \<open>createCompletion\<close>, the hook starting in state
  \<open>w\<close>: the invocations it makes, how its promise settles, and the state it leaves the
  callback in. For \<open>createCompletionStream\<close> the options are the \<open>wrapped\<close> ones and
  the hook's state holds the history of the stream.
\<close>

definition provider_conversation ::
  "js_object \<Rightarrow> provider \<Rightarrow> string \<Rightarrow> 'w completion_options option \<Rightarrow> 'w
     \<Rightarrow> (token \<times> 'w completion_state \<times> bool) list \<times> string promise \<times> 'w completion_state" where
  "provider_conversation ctx provider msg opts w =
     run_generate (generate provider msg (optionsWithDefaults ctx opts))
       (token_callback (options_or_default ctx opts) (optionsWithDefaults ctx opts))
       \<lparr>tokensGenerated = 0, console = [], world = w\<rparr>"

definition stream_conversation ::
  "js_object \<Rightarrow> provider \<Rightarrow> string \<Rightarrow> 'h completion_options option \<Rightarrow> 'h
     \<Rightarrow> (token \<times> 'h stream_world completion_state \<times> bool) list \<times> string promise
          \<times> 'h stream_world completion_state" where
  "stream_conversation ctx provider msg opts h =
     provider_conversation ctx provider msg (wrapped ctx opts) \<lparr>history = [], caller = h\<rparr>"

text \<open>
  Where a provider stands once the callback has given it the answers \<open>cs\<close>, and
  whether it emits a further unit from there. The stop signal is advisory: nothing in
  this file makes a provider stop at a \<open>false\<close>.
\<close>

fun answered :: "generation \<Rightarrow> bool list \<Rightarrow> generation" where
  "answered g [] = g"
| "answered (Token tokenId text fullText k) (c # cs) = answered (k c) cs"
| "answered g (c # cs) = g"

fun emits_more :: "generation \<Rightarrow> bool" where
  "emits_more (Token tokenId text fullText k) = True"
| "emits_more g = False"

text \<open>The answers of the caller's hook that a history holds, in order.\<close>

fun answers :: "event list \<Rightarrow> jsval list" where
  "answers [] = []"
| "answers (Consult tokenId text fullText v # es) = v # answers es"
| "answers (e # es) = answers es"

text \<open>The native handles \<open>loadModel\<close> constructed, by their options.\<close>

fun constructed :: "'c load_event list \<Rightarrow> llm_options list" where
  "constructed [] = []"
| "constructed (NewLLModel opts # es) = opts # constructed es"
| "constructed (e # es) = constructed es"

section \<open>Stub collaborators\<close>

text \<open>
  A provider that emits its units whatever the callback answers, one that stops at the
  first \<open>false\<close> and returns the text so far, and a hook that answers \<open>false\<close> at its
  \<open>k\<close>-th consultation (counted from \<open>0\<close>) and nothing otherwise. A reader that gets
  its turn after every push, and one that gets it only when the provider is through.
\<close>

definition every_push :: "nat \<Rightarrow> bool" where
  "every_push j = True"

definition at_the_end :: "nat \<Rightarrow> bool" where
  "at_the_end j = False"

fun deaf_generation :: "token list \<Rightarrow> generation \<Rightarrow> generation" where
  "deaf_generation [] g = g"
| "deaf_generation ((tokenId, text, fullText) # units) g =
     Token tokenId text fullText (\<lambda>continue. deaf_generation units g)"

fun obedient_generation :: "token list \<Rightarrow> string \<Rightarrow> generation" where
  "obedient_generation [] full = Returns full"
| "obedient_generation ((tokenId, text, fullText) # units) full =
     Token tokenId text fullText
       (\<lambda>continue. if continue then obedient_generation units full else Returns fullText)"

definition stub_provider :: "generation \<Rightarrow> provider" where
  "stub_provider g = \<lparr>modelName = ''stub'', generate = (\<lambda>message options. g)\<rparr>"

definition stop_at :: "nat \<Rightarrow> nat hook" where
  "stop_at k tokenId text fullText n = (if n = k then JBool False else JUndefined, Suc n)"

definition abc :: "token list" where
  "abc = [(1, ''a'', ''a''), (2, ''b'', ''ab''), (3, ''c'', ''abc'')]"

definition ab :: "token list" where
  "ab = [(1, ''a'', ''a''), (2, ''b'', ''ab'')]"

definition a_c :: "token list" where
  "a_c = [(1, ''a'', ''a''), (2, [], ''a''), (3, ''c'', ''ac'')]"

definition bc :: "token list" where
  "bc = [(2, ''b'', ''ab''), (3, ''c'', ''abc'')]"

definition with_hook :: "'w hook \<Rightarrow> 'w completion_options option" where
  "with_hook hook = Some \<lparr>settings = Map.empty, onToken = Some hook\<rparr>"

text \<open>
  An environment in which the model resolves, only \<open>/lib\<close> exists and the native
  constructor returns its options as the handle; one in which resolution fails; and one
  in which the native constructor throws.
\<close>

definition stub_environment :: "(string, llm_options) environment" where
  "stub_environment =
     \<lparr>DEFAULT_DIRECTORY = ''/models'',
      DEFAULT_LIBRARIES_DIRECTORY = ''/lib;/opt/lib'',
      retrieveModel = (\<lambda>name ro. Fulfilled ''config''),
      existsSync = (\<lambda>path. path = ''/lib''),
      appendBinSuffixIfMissing = (\<lambda>name. name @ ''.bin''),
      LLModel = (\<lambda>opts. Inr opts),
      numberToString = (\<lambda>n. ''0'')\<rparr>"

definition offline_environment :: "(string, llm_options) environment" where
  "offline_environment =
     stub_environment\<lparr>retrieveModel := (\<lambda>name ro. Rejected (Error ''offline''))\<rparr>"

definition broken_environment :: "(string, llm_options) environment" where
  "broken_environment =
     stub_environment\<lparr>LLModel := (\<lambda>opts. Inl (Error ''no backend''))\<rparr>"

definition stub_handle :: llm_options where
  "stub_handle =
     \<lparr>model_name = ''m.bin'', model_path = JStr ''/models'', library_path = ''/lib'',
      device = JStr ''cpu'', nCtx = JNum 2048, ngl = JNum 100\<rparr>"

section \<open>Running a conversation\<close>

lemma run_generate_conversation:
  "run_generate g cb s = (calls, settled, s') \<Longrightarrow> conversation cb s calls s'"
proof (induction g arbitrary: s calls settled s')
  case (Token i t f k)
  obtain c s1 where cb: "cb i t f s = (c, s1)"
    by (cases "cb i t f s")
  obtain calls1 r1 s2 where rest: "run_generate (k c) cb s1 = (calls1, r1, s2)"
    by (cases "run_generate (k c) cb s1")
  from Token.prems cb rest have eqs: "calls = ((i, t, f), s, c) # calls1" "s' = s2"
    by simp_all
  have "conversation cb s1 calls1 s2"
    using Token.IH [OF rangeI rest] .
  then show ?case using eqs cb by simp
qed simp_all

section \<open>The token callback of createCompletion\<close>

lemma token_callback_counts:
  "tokensGenerated (snd (token_callback options owd i t f s)) = Suc (tokensGenerated s)"
  by (simp add: token_callback_def Let_def split: option.split prod.split)

lemma conversation_counts:
  "conversation (token_callback options owd) s calls s'
     \<Longrightarrow> tokensGenerated s' = tokensGenerated s + length calls"
  by (induction calls arbitrary: s) (auto simp: token_callback_counts)

lemma token_callback_flag:
  "fst (token_callback options owd i t f s)
     = (hook_answer options ((i, t, f), s, c) \<noteq> Some (JBool False))"
  by (simp add: token_callback_def hook_answer_def Let_def split: option.split prod.split)

lemma conversation_flags:
  "conversation (token_callback options owd) s calls s'
     \<Longrightarrow> c \<in> set calls \<Longrightarrow> call_flag c = (hook_answer options c \<noteq> Some (JBool False))"
proof (induction calls arbitrary: s)
  case (Cons a calls)
  obtain i t f sk flag where a: "a = ((i, t, f), sk, flag)"
    by (cases a) auto
  show ?case
  proof (cases "c = a")
    case True
    with Cons.prems a token_callback_flag [of options owd i t f s flag]
    show ?thesis by (simp add: call_flag_def)
  next
    case False
    with Cons.prems a have "c \<in> set calls"
      "conversation (token_callback options owd) (snd (token_callback options owd i t f s)) calls s'"
      by simp_all
    then show ?thesis using Cons.IH by blast
  qed
qed simp

lemma createCompletion_run:
  "run_generate (generate p m (optionsWithDefaults ctx opts))
     (token_callback (options_or_default ctx opts) (optionsWithDefaults ctx opts))
     \<lparr>tokensGenerated = 0, console = [], world = w\<rparr>
   = (invocations (createCompletion ctx p m opts w),
      response (createCompletion ctx p m opts w),
      final (createCompletion ctx p m opts w))"
  by (simp add: createCompletion_def optionsWithDefaults_def Let_def split: prod.split)

lemma createCompletion_conversation:
  "conversation (token_callback (options_or_default ctx opts) (optionsWithDefaults ctx opts))
     \<lparr>tokensGenerated = 0, console = [], world = w\<rparr>
     (invocations (createCompletion ctx p m opts w))
     (final (createCompletion ctx p m opts w))"
  using run_generate_conversation [OF createCompletion_run] .

lemma createCompletion_counter:
  "tokensGenerated (final (createCompletion ctx p m opts w))
     = length (invocations (createCompletion ctx p m opts w))"
  using conversation_counts [OF createCompletion_conversation] by fastforce

lemma createCompletion_returned:
  "returned (createCompletion ctx p m opts w) =
     (case response (createCompletion ctx p m opts w) of
        Pending \<Rightarrow> Pending
      | Rejected e \<Rightarrow> Rejected e
      | Fulfilled text \<Rightarrow>
          Fulfilled
            \<lparr>llmodel = modelName p,
             usage = \<lparr>prompt_tokens = length m,
                      completion_tokens = tokensGenerated (final (createCompletion ctx p m opts w)),
                      total_tokens = length m + tokensGenerated (final (createCompletion ctx p m opts w))\<rparr>,
             message = \<lparr>role = ''assistant'', content = text\<rparr>\<rparr>)"
proof -
  obtain calls settled s where
    "run_generate (generate p m (optionsWithDefaults ctx opts))
       (token_callback (options_or_default ctx opts) (optionsWithDefaults ctx opts))
       \<lparr>tokensGenerated = 0, console = [], world = w\<rparr> = (calls, settled, s)"
    using prod_cases3 by blast
  then show ?thesis
    by (simp add: createCompletion_def optionsWithDefaults_def Let_def split: promise.split)
qed

lemma createCompletion_generate_calls:
  "generate_calls (createCompletion ctx p m opts w) = [(m, optionsWithDefaults ctx opts)]"
  by (simp add: createCompletion_def optionsWithDefaults_def Let_def split: prod.split)

lemma createCompletion_flags:
  "c \<in> set (invocations (createCompletion ctx p m opts w))
     \<Longrightarrow> call_flag c = (hook_answer (options_or_default ctx opts) c \<noteq> Some (JBool False))"
  using conversation_flags [OF createCompletion_conversation] .

section \<open>The history of the stream\<close>

lemma stream_token_history:
  "history (world (snd (token_callback \<lparr>settings = st, onToken = Some (stream_onToken user)\<rparr> owd i t f s)))
     = history (world s) @ stream_events user ((i, t, f), s, c)"
  by (simp add: token_callback_def stream_onToken_def stream_events_def Let_def
           split: option.split prod.split)

lemma conversation_history:
  "conversation (token_callback \<lparr>settings = st, onToken = Some (stream_onToken user)\<rparr> owd) s calls s'
     \<Longrightarrow> history (world s') = history (world s) @ concat (map (stream_events user) calls)"
proof (induction calls arbitrary: s)
  case (Cons a calls)
  obtain i t f sk flag where a: "a = ((i, t, f), sk, flag)"
    by (cases a) auto
  let ?cb = "token_callback \<lparr>settings = st, onToken = Some (stream_onToken user)\<rparr> owd"
  from Cons.prems a have sk: "sk = s" and rest: "conversation ?cb (snd (?cb i t f s)) calls s'"
    by simp_all
  have "history (world s') = history (world (snd (?cb i t f s))) @ concat (map (stream_events user) calls)"
    using Cons.IH [OF rest] .
  then show ?case
    using stream_token_history [of st user owd i t f s flag] a sk by simp
qed simp

lemma stream_run:
  "run (createCompletionStream ctx p m opts h)
     = createCompletion ctx p m (wrapped ctx opts) \<lparr>history = [], caller = h\<rparr>"
  by (simp add: createCompletionStream_def wrapped_def Let_def split: promise.split)

lemma stream_result:
  "result (createCompletionStream ctx p m opts h) = returned (run (createCompletionStream ctx p m opts h))"
  by (simp add: createCompletionStream_def wrapped_def Let_def split: promise.split)

lemma stream_timeline_raw:
  "timeline (createCompletionStream ctx p m opts h)
     = history (world (final (run (createCompletionStream ctx p m opts h))))
         @ settlement_events (result (createCompletionStream ctx p m opts h))"
  by (simp add: createCompletionStream_def wrapped_def settlement_events_def Let_def split: promise.split)

lemma wrapped_options [simp]:
  "options_or_default ctx (wrapped ctx opts) =
     \<lparr>settings = settings (options_or_default ctx opts),
      onToken = Some (stream_onToken (onToken (options_or_default ctx opts)))\<rparr>"
  by (simp add: wrapped_def options_or_default_def)

lemma wrapped_optionsWithDefaults:
  "optionsWithDefaults ctx (wrapped ctx opts) = optionsWithDefaults ctx opts"
  by (simp add: optionsWithDefaults_def)

lemma stream_history:
  "history (world (final (run (createCompletionStream ctx p m opts h))))
     = concat (map (stream_events (onToken (options_or_default ctx opts)))
         (invocations (run (createCompletionStream ctx p m opts h))))"
  using conversation_history [OF createCompletion_conversation [of ctx "wrapped ctx opts", unfolded wrapped_options]]
  by (simp add: stream_run)

lemma stream_timeline:
  "timeline (createCompletionStream ctx p m opts h)
     = concat (map (stream_events (onToken (options_or_default ctx opts)))
         (invocations (run (createCompletionStream ctx p m opts h))))
       @ settlement_events (result (createCompletionStream ctx p m opts h))"
  by (simp add: stream_timeline_raw stream_history)

lemma chunks_append: "chunks (xs @ ys) = chunks xs @ chunks ys"
  by (induction xs rule: chunks.induct) simp_all

lemma chunks_stream_events: "chunks (stream_events user c) = [call_text c]"
  by (simp add: stream_events_def call_text_def split: prod.split option.split)

lemma chunks_concat_stream_events:
  "chunks (concat (map (stream_events user) calls)) = map call_text calls"
  by (induction calls) (simp_all add: chunks_append chunks_stream_events)

lemma chunks_settlement: "chunks (settlement_events p) = []"
  by (simp add: settlement_events_def split: promise.split)

lemma stream_chunks:
  "chunks (timeline (createCompletionStream ctx p m opts h))
     = map call_text (invocations (run (createCompletionStream ctx p m opts h)))"
  by (simp add: stream_timeline chunks_append chunks_concat_stream_events chunks_settlement)

lemma token_events_stream_events: "e \<in> set (stream_events user c) \<Longrightarrow> is_token_event e"
  by (auto simp: stream_events_def is_token_event_def split: prod.splits option.splits)

lemma token_events_concat:
  "e \<in> set (concat (map (stream_events user) calls)) \<Longrightarrow> is_token_event e"
  by (auto dest: token_events_stream_events)

lemma stream_body_token_events:
  "\<forall>e \<in> set (concat (map (stream_events user) calls)). is_token_event e"
  using token_events_concat by blast

lemma stream_events_cases:
  "stream_events user c = [Push (call_text c)]
   \<or> (\<exists>i f v. stream_events user c = [Push (call_text c), Consult i (call_text c) f v])"
  by (auto simp: stream_events_def call_text_def split: prod.splits option.splits)

lemma consult_position:
  assumes "concat (map (stream_events user) calls) @ tail = pre @ Consult i t f v # post"
    and "\<And>i t f v. Consult i t f v \<notin> set tail"
  shows "\<exists>before c after. calls = before @ c # after
           \<and> stream_events user c = [Push t, Consult i t f v]
           \<and> pre = concat (map (stream_events user) before) @ [Push t]
           \<and> post = concat (map (stream_events user) after) @ tail"
  using assms(1)
proof (induction calls arbitrary: pre)
  case Nil
  then have "Consult i t f v \<in> set tail" by simp
  with assms(2) show ?case by blast
next
  case (Cons a calls)
  let ?rest = "concat (map (stream_events user) calls) @ tail"
  from stream_events_cases [of user a] show ?case
  proof
    assume blk: "stream_events user a = [Push (call_text a)]"
    with Cons.prems have eq: "Push (call_text a) # ?rest = pre @ Consult i t f v # post"
      by simp
    then obtain pre1 where pre: "pre = Push (call_text a) # pre1"
      and rest: "?rest = pre1 @ Consult i t f v # post"
      by (cases pre) auto
    from Cons.IH [OF rest] obtain before c after where
      "calls = before @ c # after" "stream_events user c = [Push t, Consult i t f v]"
      "pre1 = concat (map (stream_events user) before) @ [Push t]"
      "post = concat (map (stream_events user) after) @ tail"
      by blast
    then have "a # calls = (a # before) @ c # after
        \<and> stream_events user c = [Push t, Consult i t f v]
        \<and> pre = concat (map (stream_events user) (a # before)) @ [Push t]
        \<and> post = concat (map (stream_events user) after) @ tail"
      using pre blk by simp
    then show ?thesis by blast
  next
    assume "\<exists>i f v. stream_events user a = [Push (call_text a), Consult i (call_text a) f v]"
    then obtain i0 f0 v0 where
      blk: "stream_events user a = [Push (call_text a), Consult i0 (call_text a) f0 v0]"
      by blast
    with Cons.prems have
      eq: "Push (call_text a) # Consult i0 (call_text a) f0 v0 # ?rest = pre @ Consult i t f v # post"
      by simp
    then obtain pre1 where pre: "pre = Push (call_text a) # pre1"
      and eq1: "Consult i0 (call_text a) f0 v0 # ?rest = pre1 @ Consult i t f v # post"
      by (cases pre) auto
    show ?thesis
    proof (cases pre1)
      case Nil
      with eq1 have "i0 = i" "call_text a = t" "f0 = f" "v0 = v" "post = ?rest"
        by simp_all
      with blk pre Nil have "a # calls = [] @ a # calls
        \<and> stream_events user a = [Push t, Consult i t f v]
        \<and> pre = concat (map (stream_events user) []) @ [Push t]
        \<and> post = concat (map (stream_events user) calls) @ tail"
        by simp
      then show ?thesis by blast
    next
      case (Cons y pre2)
      with eq1 have y: "y = Consult i0 (call_text a) f0 v0"
        and rest: "?rest = pre2 @ Consult i t f v # post"
        by simp_all
      from Cons.IH [OF rest] obtain before c after where
        "calls = before @ c # after" "stream_events user c = [Push t, Consult i t f v]"
        "pre2 = concat (map (stream_events user) before) @ [Push t]"
        "post = concat (map (stream_events user) after) @ tail"
        by blast
      then have "a # calls = (a # before) @ c # after
          \<and> stream_events user c = [Push t, Consult i t f v]
          \<and> pre = concat (map (stream_events user) (a # before)) @ [Push t]
          \<and> post = concat (map (stream_events user) after) @ tail"
        using pre Cons y blk by simp
      then show ?thesis by blast
    qed
  qed
qed

lemma settlement_no_consult: "Consult i t f v \<notin> set (settlement_events p)"
  by (simp add: settlement_events_def split: promise.split)

lemma consult_answer:
  "stream_events user c = [Push t, Consult i t f v]
     \<Longrightarrow> hook_answer \<lparr>settings = st, onToken = Some (stream_onToken user)\<rparr> c = Some v"
  by (auto simp: stream_events_def hook_answer_def stream_onToken_def Let_def
           split: prod.splits option.splits)

lemma stream_consult:
  assumes "timeline (createCompletionStream ctx p m opts h) = pre @ Consult i t f v # post"
  shows "\<exists>before c after.
           invocations (run (createCompletionStream ctx p m opts h)) = before @ c # after
           \<and> call_flag c = (v \<noteq> JBool False)
           \<and> (\<exists>pre'. pre = pre' @ [Push t])
           \<and> post = concat (map (stream_events (onToken (options_or_default ctx opts))) after)
                 @ settlement_events (result (createCompletionStream ctx p m opts h))"
proof -
  let ?user = "onToken (options_or_default ctx opts)"
  let ?calls = "invocations (run (createCompletionStream ctx p m opts h))"
  from assms have "concat (map (stream_events ?user) ?calls)
      @ settlement_events (result (createCompletionStream ctx p m opts h))
    = pre @ Consult i t f v # post"
    by (simp add: stream_timeline)
  from consult_position [OF this settlement_no_consult]
  obtain before c after where dec: "?calls = before @ c # after"
    and blk: "stream_events ?user c = [Push t, Consult i t f v]"
    and pre: "pre = concat (map (stream_events ?user) before) @ [Push t]"
    and post: "post = concat (map (stream_events ?user) after)
                 @ settlement_events (result (createCompletionStream ctx p m opts h))"
    by blast
  have conv: "conversation
      (token_callback \<lparr>settings = settings (options_or_default ctx opts),
                        onToken = Some (stream_onToken ?user)\<rparr>
         (optionsWithDefaults ctx (wrapped ctx opts)))
      \<lparr>tokensGenerated = 0, console = [], world = \<lparr>history = [], caller = h\<rparr>\<rparr>
      ?calls (final (run (createCompletionStream ctx p m opts h)))"
    using createCompletion_conversation [of ctx "wrapped ctx opts" "\<lparr>history = [], caller = h\<rparr>" p m]
    by (simp add: stream_run)
  have "c \<in> set ?calls" using dec by simp
  from conversation_flags [OF conv this] consult_answer [OF blk]
  have "call_flag c = (v \<noteq> JBool False)" by simp
  with dec pre post show ?thesis by blast
qed

section \<open>The provider's conversation\<close>

lemma provider_conversation_run:
  "provider_conversation ctx p m opts w
     = (invocations (createCompletion ctx p m opts w),
        response (createCompletion ctx p m opts w),
        final (createCompletion ctx p m opts w))"
  unfolding provider_conversation_def by (rule createCompletion_run)

lemma provider_conversation_counter:
  "tokensGenerated (snd (snd (provider_conversation ctx p m opts w)))
     = length (fst (provider_conversation ctx p m opts w))"
  by (simp add: provider_conversation_run createCompletion_counter)

lemma stream_conversation_run:
  "stream_conversation ctx p m opts h
     = (invocations (run (createCompletionStream ctx p m opts h)),
        response (run (createCompletionStream ctx p m opts h)),
        final (run (createCompletionStream ctx p m opts h)))"
  unfolding stream_conversation_def by (simp add: provider_conversation_run stream_run)

lemma stream_conversation_generate:
  "stream_conversation ctx p m opts h
     = run_generate (generate p m (optionsWithDefaults ctx opts))
         (token_callback (options_or_default ctx (wrapped ctx opts)) (optionsWithDefaults ctx opts))
         \<lparr>tokensGenerated = 0, console = [], world = \<lparr>history = [], caller = h\<rparr>\<rparr>"
  by (simp add: stream_conversation_def provider_conversation_def wrapped_optionsWithDefaults)

section \<open>What a reader receives\<close>

lemma token_events_no_end:
  assumes "\<forall>e \<in> set body. is_token_event e"
  shows "PushNull \<notin> set body"
proof -
  have "\<not> is_token_event PushNull" by (simp add: is_token_event_def)
  with assms show ?thesis by blast
qed

lemma for_await_concat:
  "concat (fst (for_await turn buffer es))
     = buffer @ concat (chunks (takeWhile (\<lambda>e. e \<noteq> PushNull) es))"
  by (induction turn buffer es rule: for_await.induct)
     (simp_all add: flush_def case_prod_beta)

lemma for_await_no_empty_chunk: "[] \<notin> set (fst (for_await turn buffer es))"
  by (induction turn buffer es rule: for_await.induct)
     (simp_all add: flush_def case_prod_beta)

lemma for_await_left: "snd (for_await turn buffer es) = (PushNull \<in> set es)"
  by (induction turn buffer es rule: for_await.induct)
     (simp_all add: case_prod_beta)

lemma for_await_every_push:
  "(\<And>j. turn j) \<Longrightarrow>
   fst (for_await turn [] es)
     = filter (\<lambda>t. t \<noteq> []) (chunks (takeWhile (\<lambda>e. e \<noteq> PushNull) es))"
proof (induction es arbitrary: turn)
  case Nil
  show ?case by (simp add: flush_def)
next
  case (Cons e es)
  have rest: "fst (for_await (\<lambda>j. turn (Suc j)) [] es)
      = filter (\<lambda>t. t \<noteq> []) (chunks (takeWhile (\<lambda>e. e \<noteq> PushNull) es))"
    using Cons.IH [of "\<lambda>j. turn (Suc j)"] Cons.prems by simp
  show ?case
  proof (cases e)
    case (Push t)
    with rest Cons.prems [of 0] show ?thesis
      by (simp add: flush_def case_prod_beta)
  next
    case (Consult i t f v)
    with Cons.IH [of turn] Cons.prems show ?thesis by simp
  next
    case PushNull
    then show ?thesis by (simp add: flush_def)
  next
    case EmitEnd
    with Cons.IH [of turn] Cons.prems show ?thesis by simp
  next
    case ResultSettled
    with Cons.IH [of turn] Cons.prems show ?thesis by simp
  qed
qed

lemma timeline_until_end:
  "chunks (takeWhile (\<lambda>e. e \<noteq> PushNull) (timeline (createCompletionStream ctx p m opts h)))
     = chunks (timeline (createCompletionStream ctx p m opts h))"
proof -
  let ?body = "concat (map (stream_events (onToken (options_or_default ctx opts)))
                 (invocations (run (createCompletionStream ctx p m opts h))))"
  let ?closing = "settlement_events (result (createCompletionStream ctx p m opts h))"
  have "\<forall>e \<in> set ?body. is_token_event e" by (rule stream_body_token_events)
  then have "PushNull \<notin> set ?body" by (rule token_events_no_end)
  then have "\<forall>e \<in> set ?body. e \<noteq> PushNull" by blast
  then have "takeWhile (\<lambda>e. e \<noteq> PushNull) (?body @ ?closing)
      = ?body @ takeWhile (\<lambda>e. e \<noteq> PushNull) ?closing"
    by (intro takeWhile_append2) blast
  moreover have "chunks (takeWhile (\<lambda>e. e \<noteq> PushNull) ?closing) = []"
    by (simp add: settlement_events_def split: promise.split)
  ultimately show ?thesis
    by (simp add: stream_timeline chunks_append chunks_settlement)
qed

lemma stream_ended_iff:
  "(PushNull \<in> set (timeline (createCompletionStream ctx p m opts h)))
     = (\<exists>res. result (createCompletionStream ctx p m opts h) = Fulfilled res)"
proof -
  let ?body = "concat (map (stream_events (onToken (options_or_default ctx opts)))
                 (invocations (run (createCompletionStream ctx p m opts h))))"
  have "\<forall>e \<in> set ?body. is_token_event e" by (rule stream_body_token_events)
  then have "PushNull \<notin> set ?body" by (rule token_events_no_end)
  then show ?thesis
    by (simp add: stream_timeline settlement_events_def split: promise.split)
qed

lemma delivered_concat:
  "concat (delivered turn (timeline (createCompletionStream ctx p m opts h)))
     = concat (chunks (timeline (createCompletionStream ctx p m opts h)))"
  by (simp add: delivered_def for_await_concat timeline_until_end)

lemma delivered_no_empty_chunk: "[] \<notin> set (delivered turn es)"
  by (simp add: delivered_def for_await_no_empty_chunk)

lemma delivered_every_push:
  "(\<And>j. turn j) \<Longrightarrow>
   delivered turn (timeline (createCompletionStream ctx p m opts h))
     = filter (\<lambda>t. t \<noteq> []) (chunks (timeline (createCompletionStream ctx p m opts h)))"
  by (simp add: delivered_def for_await_every_push timeline_until_end)

lemma generator_yielded:
  "yielded (createCompletionGenerator turn ctx p m opts h)
     = delivered turn (timeline (createCompletionStream ctx p m opts h))"
  by (simp add: createCompletionGenerator_def delivered_def Let_def split: prod.split)

lemma generator_finish:
  "finish (createCompletionGenerator turn ctx p m opts h)
     = (case result (createCompletionStream ctx p m opts h) of
          Fulfilled res \<Rightarrow> Returned res
        | Rejected e \<Rightarrow> Suspended
        | Pending \<Rightarrow> Suspended)"
proof -
  have "snd (for_await turn [] (timeline (createCompletionStream ctx p m opts h)))
      = (\<exists>res. result (createCompletionStream ctx p m opts h) = Fulfilled res)"
    by (simp add: for_await_left stream_ended_iff)
  then show ?thesis
    by (cases "for_await turn [] (timeline (createCompletionStream ctx p m opts h))")
       (auto simp: createCompletionGenerator_def Let_def split: promise.split)
qed

section \<open>Where the provider stands\<close>

lemma run_generate_answered:
  "run_generate g cb s = (calls, settled, s') \<Longrightarrow> n \<le> length calls
     \<Longrightarrow> emits_more (answered g (map call_flag (take n calls))) = (n < length calls)"
proof (induction g arbitrary: s calls settled s' n)
  case (Token i t f k)
  obtain b s1 where cb: "cb i t f s = (b, s1)"
    by (cases "cb i t f s")
  obtain calls1 r1 s2 where rest: "run_generate (k b) cb s1 = (calls1, r1, s2)"
    by (cases "run_generate (k b) cb s1")
  from Token.prems(1) cb rest have eqs: "calls = ((i, t, f), s, b) # calls1"
    by simp
  show ?case
  proof (cases n)
    case 0
    with eqs show ?thesis by simp
  next
    case (Suc n')
    with Token.prems(2) eqs have "n' \<le> length calls1" by simp
    from Token.IH [OF rangeI rest this] Suc eqs show ?thesis
      by (simp add: call_flag_def)
  qed
qed simp_all

lemma answers_append: "answers (xs @ ys) = answers xs @ answers ys"
  by (induction xs rule: answers.induct) simp_all

lemma answers_stream_events:
  "answers (stream_events (Some hook) c)
     = [the (hook_answer \<lparr>settings = st, onToken = Some (stream_onToken (Some hook))\<rparr> c)]"
  by (simp add: stream_events_def hook_answer_def stream_onToken_def Let_def
           split: prod.split)

lemma answers_flags:
  assumes "\<And>b. b \<in> set before \<Longrightarrow>
      call_flag b = (hook_answer \<lparr>settings = st, onToken = Some (stream_onToken (Some hook))\<rparr> b
                       \<noteq> Some (JBool False))"
  shows "map (\<lambda>v. v \<noteq> JBool False) (answers (concat (map (stream_events (Some hook)) before)))
     = map call_flag before"
  using assms
proof (induction before)
  case Nil
  show ?case by simp
next
  case (Cons b before)
  have "hook_answer \<lparr>settings = st, onToken = Some (stream_onToken (Some hook))\<rparr> b \<noteq> None"
    by (simp add: hook_answer_def split: prod.split)
  then obtain v where v: "hook_answer \<lparr>settings = st, onToken = Some (stream_onToken (Some hook))\<rparr> b = Some v"
    by blast
  have "call_flag b = (v \<noteq> JBool False)"
    using Cons.prems [of b] v by simp
  moreover have "map (\<lambda>v. v \<noteq> JBool False) (answers (concat (map (stream_events (Some hook)) before)))
     = map call_flag before"
    using Cons.IH Cons.prems by simp
  ultimately show ?case
    using v by (simp add: answers_append answers_stream_events [of hook b st])
qed

lemma stream_events_consulted:
  "stream_events user c = [Push t, Consult i t f v] \<Longrightarrow> \<exists>hook. user = Some hook"
  by (cases user) (simp_all add: stream_events_def split: prod.splits)

lemma stream_stop:
  assumes tl: "timeline (createCompletionStream ctx p m opts h) = pre @ Consult i t f (JBool False) # post"
    and stop: "\<not> emits_more (answered (generate p m (optionsWithDefaults ctx opts))
                  (map (\<lambda>v. v \<noteq> JBool False) (answers pre) @ [False]))"
  shows "chunks post = []"
proof -
  let ?stream = "createCompletionStream ctx p m opts h"
  let ?user = "onToken (options_or_default ctx opts)"
  let ?calls = "invocations (run ?stream)"
  let ?st = "settings (options_or_default ctx opts)"
  from tl have "concat (map (stream_events ?user) ?calls) @ settlement_events (result ?stream)
    = pre @ Consult i t f (JBool False) # post"
    by (simp add: stream_timeline)
  from consult_position [OF this settlement_no_consult]
  obtain before c after where dec: "?calls = before @ c # after"
    and blk: "stream_events ?user c = [Push t, Consult i t f (JBool False)]"
    and pre: "pre = concat (map (stream_events ?user) before) @ [Push t]"
    and post: "post = concat (map (stream_events ?user) after) @ settlement_events (result ?stream)"
    by blast
  from stream_events_consulted [OF blk] obtain hook where user: "?user = Some hook"
    by blast
  have conv: "conversation
      (token_callback \<lparr>settings = ?st, onToken = Some (stream_onToken (Some hook))\<rparr>
         (optionsWithDefaults ctx (wrapped ctx opts)))
      \<lparr>tokensGenerated = 0, console = [], world = \<lparr>history = [], caller = h\<rparr>\<rparr>
      ?calls (final (run ?stream))"
    using createCompletion_conversation [of ctx "wrapped ctx opts" "\<lparr>history = [], caller = h\<rparr>" p m] user
    by (simp add: stream_run)
  have flags: "call_flag b
      = (hook_answer \<lparr>settings = ?st, onToken = Some (stream_onToken (Some hook))\<rparr> b \<noteq> Some (JBool False))"
    if "b \<in> set ?calls" for b
    using conversation_flags [OF conv that] .
  have "call_flag c = (Some (JBool False) \<noteq> Some (JBool False))"
    using flags [of c] consult_answer [OF blk [unfolded user], of ?st] dec by simp
  then have cflag: "call_flag c = False" by simp
  have "map (\<lambda>v. v \<noteq> JBool False) (answers (concat (map (stream_events (Some hook)) before)))
     = map call_flag before"
    using answers_flags [of before ?st hook] flags dec by simp
  then have "map (\<lambda>v. v \<noteq> JBool False) (answers pre) @ [False]
     = map call_flag (take (Suc (length before)) ?calls)"
    using pre user dec cflag by (simp add: answers_append)
  with stop have "\<not> emits_more (answered (generate p m (optionsWithDefaults ctx opts))
                  (map call_flag (take (Suc (length before)) ?calls)))"
    by simp
  moreover have "Suc (length before) \<le> length ?calls" using dec by simp
  ultimately have "\<not> Suc (length before) < length ?calls"
    using run_generate_answered [of "generate p m (optionsWithDefaults ctx opts)" _ _ ?calls
        "response (run ?stream)" "final (run ?stream)" "Suc (length before)"]
      stream_conversation_run [of ctx p m opts h] stream_conversation_generate [of ctx p m opts h]
    by simp
  with dec have "after = []" by simp
  with post show ?thesis by (simp add: chunks_settlement)
qed

section \<open>Splitting and joining, and the effects of loadModel\<close>

text \<open>
  \<open>js_join\<close> undoes \<open>js_split\<close>, and no part of a split holds the separator: a
  path whose entries all exist is handed on unchanged.
\<close>

lemma js_split_nonempty: "js_split sep s \<noteq> []"
  by (induction s) (simp_all split: list.split)

lemma js_join_cons:
  "parts \<noteq> [] \<Longrightarrow> js_join sep (part # parts) = part @ sep @ js_join sep parts"
  by (cases parts) simp_all

lemma js_join_split: "js_join [sep] (js_split sep s) = s"
proof (induction s)
  case Nil
  show ?case by simp
next
  case (Cons c s)
  show ?case
  proof (cases "c = sep")
    case True
    with Cons show ?thesis by (simp add: js_join_cons js_split_nonempty)
  next
    case False
    obtain part parts where sp: "js_split sep s = part # parts"
      using js_split_nonempty [of sep s] by (cases "js_split sep s") auto
    with Cons have "js_join [sep] (part # parts) = s" by simp
    then have "js_join [sep] ((c # part) # parts) = c # s"
      by (cases parts) auto
    with False sp show ?thesis by simp
  qed
qed

lemma js_split_no_separator: "part \<in> set (js_split sep s) \<Longrightarrow> sep \<notin> set part"
proof (induction s arbitrary: part)
  case Nil
  then show ?case by simp
next
  case (Cons c s)
  obtain p ps where sp: "js_split sep s = p # ps"
    using js_split_nonempty [of sep s] by (cases "js_split sep s") auto
  show ?case
  proof (cases "c = sep")
    case True
    with Cons show ?thesis by auto
  next
    case False
    with Cons.prems sp have "part = c # p \<or> part \<in> set ps" by simp
    then show ?thesis
    proof
      assume "part = c # p"
      moreover have "sep \<notin> set p" using Cons.IH [of p] sp by simp
      ultimately show ?thesis using False by simp
    next
      assume "part \<in> set ps"
      then show ?thesis using Cons.IH [of part] sp by simp
    qed
  qed
qed

lemma spread_lookup:
  "spread a b key = (case b key of Some v \<Rightarrow> Some v | None \<Rightarrow> a key)"
  by (simp add: spread_def map_add_def split: option.split)

lemma loadModel_first_effect:
  "\<exists>rest. effects (loadModel env name options)
     = RetrieveModel name (retrieve_arguments (loadOptions env options)) # rest"
  by (simp add: loadModel_def Let_def split: promise.split jsval.split sum.split)

lemma loadModel_bad_path:
  assumes "\<And>lp. property (loadOptions env options) ''librariesPath'' \<noteq> JStr lp"
  shows "constructed (effects (loadModel env name options)) = []
    \<and> (retrieveModel env name (retrieve_arguments (loadOptions env options)) = Fulfilled cfg
           \<longrightarrow> loaded (loadModel env name options)
                 = Rejected (AssertionError ''Libraries path should be a string''))
    \<and> (retrieveModel env name (retrieve_arguments (loadOptions env options)) = Rejected e
           \<longrightarrow> loaded (loadModel env name options) = Rejected e)"
  using assms
  by (simp add: loadModel_def Let_def split: promise.split jsval.split)

lemma loadModel_good_path:
  assumes "property (loadOptions env options) ''librariesPath'' = JStr lp"
    and "retrieveModel env name (retrieve_arguments (loadOptions env options)) = Fulfilled cfg"
  shows "constructed (effects (loadModel env name options))
           = [llmOptions env name (loadOptions env options) lp]"
  using assms
  by (simp add: loadModel_def Let_def split: sum.split)

section \<open>Evaluating the stubs\<close>

lemmas stub_defs = stub_provider_def abc_def ab_def a_c_def bc_def with_hook_def stop_at_def
  every_push_def at_the_end_def

lemmas run_defs = createCompletion_def createCompletionStream_def createCompletionGenerator_def
  token_callback_def stream_onToken_def options_or_default_def defaultCompletionOptions_def
  optionsWithDefaults_def spread_def property_def Let_def
  provider_conversation_def stream_conversation_def wrapped_def delivered_def flush_def

lemmas load_defs = loadModel_def loadOptions_def default_load_options_def retrieve_arguments_def
  llmOptions_def existingPaths_def spread_def property_def Let_def
  stub_environment_def offline_environment_def broken_environment_def

section \<open>The claims\<close>

subsection \<open>createCompletion\<close>

text \<open>
  Claim C1. Whatever the provider, the message and the options, the boolean that the
  token callback of \<open>createCompletion\<close> hands back to the provider at its \<open>j\<close>-th
  invocation is \<open>false\<close> exactly when the caller's \<open>onToken\<close> hook answered the
  boolean \<open>false\<close> at that invocation. So a hook that answers \<open>false\<close> at invocation
  \<open>k\<close> and nowhere else makes the flag \<open>false\<close> at \<open>k\<close> and \<open>true\<close> at every
  earlier invocation, and a hook that never answers \<open>false\<close> (or no hook at all: the
  answer is then \<open>None\<close>) leaves every flag \<open>true\<close>.
\<close>

theorem createCompletion_continuation_flag:
  fixes ctx p m opts w
  defines "calls \<equiv> invocations (createCompletion ctx p m opts w)"
    and "answer \<equiv> hook_answer (options_or_default ctx opts)"
  shows "(\<forall>j < length calls. call_flag (calls ! j) = (answer (calls ! j) \<noteq> Some (JBool False)))
    \<and> (k < length calls \<and> (\<forall>j < length calls. (answer (calls ! j) = Some (JBool False)) = (j = k))
          \<longrightarrow> \<not> call_flag (calls ! k) \<and> (\<forall>j < k. call_flag (calls ! j)))
    \<and> ((\<forall>j < length calls. answer (calls ! j) \<noteq> Some (JBool False))
          \<longrightarrow> (\<forall>j < length calls. call_flag (calls ! j)))"
proof -
  have flags: "call_flag (calls ! j) = (answer (calls ! j) \<noteq> Some (JBool False))"
    if "j < length calls" for j
    using createCompletion_flags [of "calls ! j" ctx p m opts w] that
    by (simp add: calls_def answer_def)
  show ?thesis
  proof (intro conjI impI allI)
    fix j assume "j < length calls"
    then show "call_flag (calls ! j) = (answer (calls ! j) \<noteq> Some (JBool False))"
      by (rule flags)
  next
    assume h: "k < length calls \<and> (\<forall>j < length calls. (answer (calls ! j) = Some (JBool False)) = (j = k))"
    then show "\<not> call_flag (calls ! k)" using flags [of k] by simp
  next
    fix j
    assume h: "k < length calls \<and> (\<forall>j < length calls. (answer (calls ! j) = Some (JBool False)) = (j = k))"
      and "j < k"
    then show "call_flag (calls ! j)" using flags [of j] by simp
  next
    fix j
    assume "\<forall>j < length calls. answer (calls ! j) \<noteq> Some (JBool False)" "j < length calls"
    then show "call_flag (calls ! j)" using flags [of j] by simp
  qed
qed

text \<open>
  The three-unit provider against a hook that answers \<open>false\<close> at its second
  consultation: the provider sees \<open>true, false, true\<close>.
\<close>

theorem createCompletion_continuation_flag_witness:
  "map call_flag (invocations (createCompletion Map.empty
       (stub_provider (deaf_generation abc (Returns ''abc''))) ''hello'' (with_hook (stop_at 1)) 0))
     = [True, False, True]
   \<and> map (hook_answer (options_or_default Map.empty (with_hook (stop_at 1))))
       (invocations (createCompletion Map.empty
         (stub_provider (deaf_generation abc (Returns ''abc''))) ''hello'' (with_hook (stop_at 1)) 0))
     = [Some JUndefined, Some (JBool False), Some JUndefined]"
  using createCompletion_continuation_flag [where k = 1 and ctx = Map.empty
      and p = "stub_provider (deaf_generation abc (Returns ''abc''))" and m = "''hello''"
      and opts = "with_hook (stop_at 1)" and w = 0]
  by (simp add: stub_defs run_defs call_flag_def hook_answer_def)

text \<open>
  Claim C2. When \<open>provider.generate\<close>, called with the message, the merged options and
  the token callback, resolves with the text \<open>full\<close> after \<open>n\<close> callback invocations,
  \<open>createCompletion\<close> resolves with \<open>llmodel\<close> the provider's \<open>modelName\<close>,
  \<open>prompt_tokens\<close> the length of the message, \<open>completion_tokens = n\<close>,
  \<open>total_tokens\<close> their sum, role \<open>assistant\<close> and content \<open>full\<close>. The counter
  equals the number of invocations whatever the hook answered and however the call
  settles.
\<close>

theorem createCompletion_result:
  fixes ctx p m opts w
  defines "conv \<equiv> provider_conversation ctx p m opts w"
  shows "(fst (snd conv) = Fulfilled full \<longrightarrow>
      returned (createCompletion ctx p m opts w) =
        Fulfilled
          \<lparr>llmodel = modelName p,
           usage = \<lparr>prompt_tokens = length m,
                    completion_tokens = length (fst conv),
                    total_tokens = length m + length (fst conv)\<rparr>,
           message = \<lparr>role = ''assistant'', content = full\<rparr>\<rparr>)
   \<and> tokensGenerated (snd (snd conv)) = length (fst conv)"
  unfolding conv_def
  by (simp add: provider_conversation_counter)
     (simp add: provider_conversation_run createCompletion_returned createCompletion_counter)

text \<open>
  Three units, a five-character message and a hook that answers \<open>false\<close> once: the
  counts are \<open>5\<close>, \<open>3\<close> and \<open>8\<close>.
\<close>

theorem createCompletion_result_witness:
  "fst (snd (provider_conversation Map.empty
       (stub_provider (deaf_generation abc (Returns ''abc''))) ''hello'' (with_hook (stop_at 1)) 0))
     = Fulfilled ''abc''
   \<and> map call_flag (fst (provider_conversation Map.empty
       (stub_provider (deaf_generation abc (Returns ''abc''))) ''hello'' (with_hook (stop_at 1)) 0))
     = [True, False, True]
   \<and> returned (createCompletion Map.empty
       (stub_provider (deaf_generation abc (Returns ''abc''))) ''hello'' (with_hook (stop_at 1)) 0)
     = Fulfilled
         \<lparr>llmodel = ''stub'',
          usage = \<lparr>prompt_tokens = 5, completion_tokens = 3, total_tokens = 8\<rparr>,
          message = \<lparr>role = ''assistant'', content = ''abc''\<rparr>\<rparr>"
  using createCompletion_result [where ctx = Map.empty
      and p = "stub_provider (deaf_generation abc (Returns ''abc''))" and m = "''hello''"
      and opts = "with_hook (stop_at 1)" and w = 0 and full = "''abc''"]
  by (simp add: stub_defs run_defs call_flag_def)



subsection \<open>createCompletionStream\<close>

text \<open>
  Claim C3 says that the stream produces exactly the texts of the units. They are all
  pushed, but the stream hands no empty text to a reader, and hands over joined what has
  gathered in its buffer: of the units \<open>a\<close>, the empty text and \<open>c\<close>, a reader that
  gets its turn after every push receives \<open>a\<close> and \<open>c\<close>, and one that gets its turn
  when the provider is through receives \<open>ac\<close>.
\<close>

theorem createCompletionStream_success_counterexample:
  "fst (snd (stream_conversation Map.empty
       (stub_provider (deaf_generation a_c (Returns ''ac''))) ''hello'' None ()))
     = Fulfilled ''ac''
   \<and> map call_text (fst (stream_conversation Map.empty
       (stub_provider (deaf_generation a_c (Returns ''ac''))) ''hello'' None ()))
     = [''a'', [], ''c'']
   \<and> delivered every_push (timeline (createCompletionStream Map.empty
       (stub_provider (deaf_generation a_c (Returns ''ac''))) ''hello'' None ()))
     = [''a'', ''c'']
   \<and> delivered at_the_end (timeline (createCompletionStream Map.empty
       (stub_provider (deaf_generation a_c (Returns ''ac''))) ''hello'' None ()))
     = [''ac'']"
  by (simp add: stub_defs run_defs call_text_def)

text \<open>
  Claim C3, amended. When \<open>provider.generate\<close>, called by \<open>createCompletionStream\<close>,
  resolves with \<open>full\<close>: the texts pushed on the stream are the texts of the units the
  provider emitted, in the order it emitted them; the history of the stream is those
  pushes (and the consultations of the caller's hook), then \<open>push(null)\<close> and
  \<open>emit("end")\<close>, and only then the settling of \<open>result\<close>, which resolves with the
  result of \<open>createCompletion\<close>, content \<open>full\<close>. What a reader receives, whenever its
  turns fall, is no empty chunk and, joined, the texts of the units joined; with a turn
  after every push it is the non-empty texts of the units, one by one.
\<close>

theorem createCompletionStream_success:
  fixes ctx p m opts h
  defines "stream \<equiv> createCompletionStream ctx p m opts h"
    and "conv \<equiv> stream_conversation ctx p m opts h"
  shows "fst (snd conv) = Fulfilled full \<longrightarrow>
     chunks (timeline stream) = map call_text (fst conv)
     \<and> (\<exists>body. timeline stream = body @ [PushNull, EmitEnd, ResultSettled]
                 \<and> (\<forall>e \<in> set body. is_token_event e))
     \<and> result stream =
         Fulfilled
           \<lparr>llmodel = modelName p,
            usage = \<lparr>prompt_tokens = length m,
                     completion_tokens = length (fst conv),
                     total_tokens = length m + length (fst conv)\<rparr>,
            message = \<lparr>role = ''assistant'', content = full\<rparr>\<rparr>
     \<and> concat (delivered turn (timeline stream)) = concat (map call_text (fst conv))
     \<and> [] \<notin> set (delivered turn (timeline stream))
     \<and> ((\<forall>j. turn j) \<longrightarrow>
          delivered turn (timeline stream) = filter (\<lambda>t. t \<noteq> []) (map call_text (fst conv)))"
proof
  assume ok: "fst (snd conv) = Fulfilled full"
  then have resp: "response (run stream) = Fulfilled full"
    unfolding conv_def stream_def by (simp add: stream_conversation_run)
  have calls: "fst conv = invocations (run stream)"
    unfolding conv_def stream_def by (simp add: stream_conversation_run)
  let ?body = "concat (map (stream_events (onToken (options_or_default ctx opts)))
                 (invocations (run stream)))"
  have res: "result stream =
         Fulfilled
           \<lparr>llmodel = modelName p,
            usage = \<lparr>prompt_tokens = length m,
                     completion_tokens = length (fst conv),
                     total_tokens = length m + length (fst conv)\<rparr>,
            message = \<lparr>role = ''assistant'', content = full\<rparr>\<rparr>"
    using resp calls unfolding stream_def
    by (simp add: stream_result stream_run createCompletion_returned createCompletion_counter)
  then have "timeline stream = ?body @ [PushNull, EmitEnd, ResultSettled]"
    unfolding stream_def by (simp add: stream_timeline settlement_events_def)
  then have shape: "\<exists>body. timeline stream = body @ [PushNull, EmitEnd, ResultSettled]
                 \<and> (\<forall>e \<in> set body. is_token_event e)"
    using stream_body_token_events by blast
  have pushed: "chunks (timeline stream) = map call_text (fst conv)"
    unfolding stream_def calls [unfolded stream_def] by (rule stream_chunks)
  have joined: "concat (delivered turn (timeline stream)) = concat (map call_text (fst conv))"
    using pushed unfolding stream_def by (simp add: delivered_concat)
  have each: "(\<forall>j. turn j) \<longrightarrow>
      delivered turn (timeline stream) = filter (\<lambda>t. t \<noteq> []) (map call_text (fst conv))"
    using pushed unfolding stream_def by (simp add: delivered_every_push)
  show "chunks (timeline stream) = map call_text (fst conv)
     \<and> (\<exists>body. timeline stream = body @ [PushNull, EmitEnd, ResultSettled]
                 \<and> (\<forall>e \<in> set body. is_token_event e))
     \<and> result stream =
         Fulfilled
           \<lparr>llmodel = modelName p,
            usage = \<lparr>prompt_tokens = length m,
                     completion_tokens = length (fst conv),
                     total_tokens = length m + length (fst conv)\<rparr>,
            message = \<lparr>role = ''assistant'', content = full\<rparr>\<rparr>
     \<and> concat (delivered turn (timeline stream)) = concat (map call_text (fst conv))
     \<and> [] \<notin> set (delivered turn (timeline stream))
     \<and> ((\<forall>j. turn j) \<longrightarrow>
          delivered turn (timeline stream) = filter (\<lambda>t. t \<noteq> []) (map call_text (fst conv)))"
    using pushed shape res joined each delivered_no_empty_chunk by blast
qed

text \<open>The provider that emits \<open>a\<close>, \<open>b\<close>, \<open>c\<close> and resolves with \<open>abc\<close>.\<close>

theorem createCompletionStream_success_witness:
  "fst (snd (stream_conversation Map.empty
       (stub_provider (deaf_generation abc (Returns ''abc''))) ''hello'' None ()))
     = Fulfilled ''abc''
   \<and> map call_text (fst (stream_conversation Map.empty
       (stub_provider (deaf_generation abc (Returns ''abc''))) ''hello'' None ()))
     = [''a'', ''b'', ''c'']
   \<and> timeline (createCompletionStream Map.empty
       (stub_provider (deaf_generation abc (Returns ''abc''))) ''hello'' None ())
     = [Push ''a'', Push ''b'', Push ''c'', PushNull, EmitEnd, ResultSettled]
   \<and> result (createCompletionStream Map.empty
       (stub_provider (deaf_generation abc (Returns ''abc''))) ''hello'' None ())
     = Fulfilled
         \<lparr>llmodel = ''stub'',
          usage = \<lparr>prompt_tokens = 5, completion_tokens = 3, total_tokens = 8\<rparr>,
          message = \<lparr>role = ''assistant'', content = ''abc''\<rparr>\<rparr>
   \<and> delivered every_push (timeline (createCompletionStream Map.empty
       (stub_provider (deaf_generation abc (Returns ''abc''))) ''hello'' None ()))
     = [''a'', ''b'', ''c'']
   \<and> delivered at_the_end (timeline (createCompletionStream Map.empty
       (stub_provider (deaf_generation abc (Returns ''abc''))) ''hello'' None ()))
     = [''abc'']"
  using createCompletionStream_success [where ctx = Map.empty
      and p = "stub_provider (deaf_generation abc (Returns ''abc''))" and m = "''hello''"
      and opts = None and h = "()" and full = "''abc''" and turn = every_push]
  by (simp add: stub_defs run_defs call_text_def)

text \<open>
  Claim C4 asks that, when \<open>provider.generate\<close> rejects with \<open>E\<close>, the stream still
  closes and \<open>result\<close> rejects with \<open>E\<close>. The handler that closes the stream is
  attached with \<open>.then(onFulfilled)\<close> alone, so a rejection passes it by: \<open>result\<close>
  rejects with \<open>E\<close>, but neither \<open>push(null)\<close> nor \<open>emit("end")\<close> ever runs. For the
  provider that emits \<open>a\<close>, \<open>b\<close>, \<open>c\<close> and then rejects with \<open>Error "boom"\<close>: the
  stream holds the three chunks and never ends, \<open>result\<close> is rejected, and
  \<open>createCompletionGenerator\<close> stays suspended in its loop whenever its turns fall.
\<close>

theorem createCompletionStream_failure_never_ends:
  "timeline (createCompletionStream Map.empty
       (stub_provider (deaf_generation abc (Throws (Error ''boom'')))) ''hello'' None ())
     = [Push ''a'', Push ''b'', Push ''c'', ResultSettled]
   \<and> stream_ended (timeline (createCompletionStream Map.empty
       (stub_provider (deaf_generation abc (Throws (Error ''boom'')))) ''hello'' None ())) = False
   \<and> result (createCompletionStream Map.empty
       (stub_provider (deaf_generation abc (Throws (Error ''boom'')))) ''hello'' None ())
     = Rejected (Error ''boom'')
   \<and> (\<forall>turn. finish (createCompletionGenerator turn Map.empty
         (stub_provider (deaf_generation abc (Throws (Error ''boom'')))) ''hello'' None ())
       = Suspended)"
  by (simp add: stub_defs run_defs stream_ended_def split: prod.split)

text \<open>The same for every provider that rejects: the stream is left open.\<close>

lemma createCompletionStream_rejected:
  fixes ctx p m opts h
  defines "stream \<equiv> createCompletionStream ctx p m opts h"
  assumes "response (run stream) = Rejected e"
  shows "result stream = Rejected e" and "\<not> stream_ended (timeline stream)"
    and "PushNull \<notin> set (timeline stream)" and "EmitEnd \<notin> set (timeline stream)"
proof -
  show res: "result stream = Rejected e"
    using assms(2) unfolding stream_def
    by (simp add: stream_result stream_run createCompletion_returned)
  let ?body = "concat (map (stream_events (onToken (options_or_default ctx opts)))
                 (invocations (run stream)))"
  have tl: "timeline stream = ?body @ [ResultSettled]"
    using res unfolding stream_def by (simp add: stream_timeline settlement_events_def)
  have "\<forall>e \<in> set ?body. is_token_event e" by (rule stream_body_token_events)
  then have "\<not> is_token_event PushNull \<longrightarrow> PushNull \<notin> set ?body"
    "\<not> is_token_event EmitEnd \<longrightarrow> EmitEnd \<notin> set ?body"
    by blast+
  then have "PushNull \<notin> set ?body" "EmitEnd \<notin> set ?body"
    by (simp_all add: is_token_event_def)
  with tl show "PushNull \<notin> set (timeline stream)" "EmitEnd \<notin> set (timeline stream)"
    by simp_all
  then show "\<not> stream_ended (timeline stream)" by (simp add: stream_ended_def)
qed

text \<open>
  Claim C10 says that the unit at which the caller's hook answers \<open>false\<close> is the last
  chunk of the stream. The answer is handed to the provider, which may go on: against a
  provider that emits \<open>a\<close> and \<open>b\<close> whatever the callback answers, a hook that
  answers \<open>false\<close> at \<open>a\<close> leaves \<open>b\<close> as the last chunk.
\<close>

theorem stream_final_chunk_counterexample:
  "timeline (createCompletionStream Map.empty
       (stub_provider (deaf_generation ab (Returns ''ab'')))
       ''hello'' (with_hook (stop_at 0)) 0)
     = [Push ''a'', Consult 1 ''a'' ''a'' (JBool False),
        Push ''b'', Consult 2 ''b'' ''ab'' JUndefined, PushNull, EmitEnd, ResultSettled]
   \<and> last (chunks (timeline (createCompletionStream Map.empty
       (stub_provider (deaf_generation ab (Returns ''ab'')))
       ''hello'' (with_hook (stop_at 0)) 0))) = ''b''"
  by (simp add: stub_defs run_defs)

text \<open>
  Claim C10, amended. In \<open>createCompletionStream\<close> the text of every unit the
  provider emits is pushed, and in the history every consultation of the caller's hook
  comes right after the push of that unit's text; and when the hook answers \<open>false\<close>
  at a unit and the provider, given the answers it has had up to and including that
  \<open>false\<close>, emits no further unit, nothing is pushed afterwards: that unit's text is
  the last chunk pushed on the stream, and what a reader receives ends with it.
\<close>

theorem stream_push_before_hook:
  fixes ctx p m opts h
  defines "stream \<equiv> createCompletionStream ctx p m opts h"
    and "conv \<equiv> stream_conversation ctx p m opts h"
  shows "chunks (timeline stream) = map call_text (fst conv)
     \<and> (timeline stream = pre @ Consult i t f v # post \<longrightarrow>
          (\<exists>pre'. pre = pre' @ [Push t])
          \<and> (v = JBool False
               \<and> \<not> emits_more (answered (generate p m (optionsWithDefaults ctx opts))
                      (map (\<lambda>v. v \<noteq> JBool False) (answers pre) @ [False])) \<longrightarrow>
               chunks post = [] \<and> last (chunks (timeline stream)) = t
               \<and> (\<exists>x. concat (delivered turn (timeline stream)) = x @ t)))"
proof (intro impI conjI)
  show "chunks (timeline stream) = map call_text (fst conv)"
    unfolding stream_def conv_def by (simp add: stream_conversation_run stream_chunks)
next
  assume tl: "timeline stream = pre @ Consult i t f v # post"
  from stream_consult [OF tl [unfolded stream_def]]
  obtain pre' where pre: "pre = pre' @ [Push t]"
    by blast
  then show "\<exists>pre'. pre = pre' @ [Push t]" by blast
  assume stop: "v = JBool False
      \<and> \<not> emits_more (answered (generate p m (optionsWithDefaults ctx opts))
             (map (\<lambda>v. v \<noteq> JBool False) (answers pre) @ [False]))"
  with tl have "timeline (createCompletionStream ctx p m opts h)
      = pre @ Consult i t f (JBool False) # post"
    unfolding stream_def by simp
  from stream_stop [OF this] stop have quiet: "chunks post = []" by blast
  then show "chunks post = []" .
  from quiet tl pre have pushed: "chunks (timeline stream) = chunks pre' @ [t]"
    by (simp add: chunks_append)
  then show "last (chunks (timeline stream)) = t" by simp
  have "concat (delivered turn (timeline stream)) = concat (chunks (timeline stream))"
    unfolding stream_def by (rule delivered_concat)
  with pushed have "concat (delivered turn (timeline stream)) = concat (chunks pre') @ t"
    by simp
  then show "\<exists>x. concat (delivered turn (timeline stream)) = x @ t" by blast
qed

text \<open>
  A provider that would go on after a \<open>false\<close> at \<open>a\<close> but stops at a \<open>false\<close> at
  \<open>b\<close>, against a hook that answers \<open>false\<close> at \<open>b\<close>.
\<close>

theorem stream_push_before_hook_witness:
  "timeline (createCompletionStream Map.empty
       (stub_provider (deaf_generation [(1, ''a'', ''a'')] (obedient_generation bc ''abc'')))
       ''hello'' (with_hook (stop_at 1)) 0)
     = [Push ''a'', Consult 1 ''a'' ''a'' JUndefined, Push ''b'']
         @ Consult 2 ''b'' ''ab'' (JBool False) # [PushNull, EmitEnd, ResultSettled]
   \<and> emits_more (answered
        (generate (stub_provider (deaf_generation [(1, ''a'', ''a'')] (obedient_generation bc ''abc'')))
           ''hello'' (optionsWithDefaults Map.empty (with_hook (stop_at 1))))
        [True, False]) = False
   \<and> emits_more (answered
        (generate (stub_provider (deaf_generation [(1, ''a'', ''a'')] (obedient_generation bc ''abc'')))
           ''hello'' (optionsWithDefaults Map.empty (with_hook (stop_at 1))))
        [False]) = True
   \<and> last (chunks (timeline (createCompletionStream Map.empty
       (stub_provider (deaf_generation [(1, ''a'', ''a'')] (obedient_generation bc ''abc'')))
       ''hello'' (with_hook (stop_at 1)) 0))) = ''b''
   \<and> delivered at_the_end (timeline (createCompletionStream Map.empty
       (stub_provider (deaf_generation [(1, ''a'', ''a'')] (obedient_generation bc ''abc'')))
       ''hello'' (with_hook (stop_at 1)) 0)) = [''ab'']"
  using stream_push_before_hook [where ctx = Map.empty
      and p = "stub_provider (deaf_generation [(1, ''a'', ''a'')] (obedient_generation bc ''abc''))"
      and m = "''hello''"
      and opts = "with_hook (stop_at 1)" and h = 0
      and pre = "[Push ''a'', Consult 1 ''a'' ''a'' JUndefined, Push ''b'']"
      and i = 2 and t = "''b''" and f = "''ab''" and v = "JBool False"
      and post = "[PushNull, EmitEnd, ResultSettled]" and turn = at_the_end]
  by (simp add: stub_defs run_defs)

subsection \<open>createCompletionGenerator\<close>

text \<open>
  Claim C6 says that the generator yields the same sequence of chunks as the stream
  produces. Of the two chunks \<open>a\<close> and \<open>b\<close> pushed by a provider that leaves the
  reader no turn before it is through, the generator yields the one chunk \<open>ab\<close>,
  where a reader with a turn after every push receives \<open>a\<close> and \<open>b\<close>; and of the
  three chunks \<open>a\<close>, the empty text and \<open>c\<close> it yields \<open>a\<close> and \<open>c\<close> even with a
  turn after every push.
\<close>

theorem createCompletionGenerator_matches_stream_counterexample:
  "yielded (createCompletionGenerator at_the_end Map.empty
       (stub_provider (deaf_generation ab (Returns ''ab''))) ''hello'' None ())
     = [''ab'']
   \<and> chunks (timeline (createCompletionStream Map.empty
       (stub_provider (deaf_generation ab (Returns ''ab''))) ''hello'' None ()))
     = [''a'', ''b'']
   \<and> delivered every_push (timeline (createCompletionStream Map.empty
       (stub_provider (deaf_generation ab (Returns ''ab''))) ''hello'' None ()))
     = [''a'', ''b'']
   \<and> yielded (createCompletionGenerator every_push Map.empty
       (stub_provider (deaf_generation a_c (Returns ''ac''))) ''hello'' None ())
     = [''a'', ''c'']
   \<and> chunks (timeline (createCompletionStream Map.empty
       (stub_provider (deaf_generation a_c (Returns ''ac''))) ''hello'' None ()))
     = [''a'', [], ''c'']"
  by (simp add: stub_defs run_defs)

text \<open>
  Claim C6, amended. Whatever the provider, the message, the options and the turns of
  the reader, \<open>createCompletionGenerator\<close> yields what a reader with those turns
  receives from the stream of \<open>createCompletionStream\<close> on the same arguments: no
  empty chunk and, joined, the chunks pushed on that stream, joined; with a turn after
  every push, the non-empty chunks pushed, one by one. And it returns \<open>res\<close> exactly
  when the \<open>result\<close> of that stream resolves with \<open>res\<close>.
\<close>

theorem createCompletionGenerator_matches_stream:
  fixes turn ctx p m opts h
  defines "stream \<equiv> createCompletionStream ctx p m opts h"
    and "generator \<equiv> createCompletionGenerator turn ctx p m opts h"
  shows "yielded generator = delivered turn (timeline stream)
     \<and> concat (yielded generator) = concat (chunks (timeline stream))
     \<and> [] \<notin> set (yielded generator)
     \<and> ((\<forall>j. turn j) \<longrightarrow>
          yielded generator = filter (\<lambda>t. t \<noteq> []) (chunks (timeline stream)))
     \<and> (finish generator = Returned res) = (result stream = Fulfilled res)"
proof -
  have "(finish generator = Returned res) = (result stream = Fulfilled res)"
    unfolding generator_def stream_def
    by (simp add: generator_finish split: promise.split)
  then show ?thesis
    unfolding generator_def stream_def
    by (simp add: generator_yielded delivered_concat delivered_no_empty_chunk delivered_every_push)
qed

text \<open>
  A provider stopped at its second unit, read with a turn after every push and with a
  turn at the end only.
\<close>

theorem createCompletionGenerator_matches_stream_witness:
  "yielded (createCompletionGenerator every_push Map.empty
       (stub_provider (obedient_generation abc ''abc'')) ''hello'' (with_hook (stop_at 1)) 0)
     = [''a'', ''b'']
   \<and> yielded (createCompletionGenerator at_the_end Map.empty
       (stub_provider (obedient_generation abc ''abc'')) ''hello'' (with_hook (stop_at 1)) 0)
     = [''ab'']
   \<and> chunks (timeline (createCompletionStream Map.empty
       (stub_provider (obedient_generation abc ''abc'')) ''hello'' (with_hook (stop_at 1)) 0))
     = [''a'', ''b'']
   \<and> finish (createCompletionGenerator every_push Map.empty
       (stub_provider (obedient_generation abc ''abc'')) ''hello'' (with_hook (stop_at 1)) 0)
     = Returned \<lparr>llmodel = ''stub'',
          usage = \<lparr>prompt_tokens = 5, completion_tokens = 2, total_tokens = 7\<rparr>,
          message = \<lparr>role = ''assistant'', content = ''ab''\<rparr>\<rparr>
   \<and> result (createCompletionStream Map.empty
       (stub_provider (obedient_generation abc ''abc'')) ''hello'' (with_hook (stop_at 1)) 0)
     = Fulfilled \<lparr>llmodel = ''stub'',
          usage = \<lparr>prompt_tokens = 5, completion_tokens = 2, total_tokens = 7\<rparr>,
          message = \<lparr>role = ''assistant'', content = ''ab''\<rparr>\<rparr>"
  using createCompletionGenerator_matches_stream [where turn = every_push and ctx = Map.empty
      and p = "stub_provider (obedient_generation abc ''abc'')" and m = "''hello''"
      and opts = "with_hook (stop_at 1)" and h = 0]
  by (simp add: stub_defs run_defs)

subsection \<open>loadModel\<close>

text \<open>
  Claim C8. The configuration \<open>loadModel\<close> works with holds, for every key, the
  caller's value when the caller supplies the key and the default's otherwise; the
  defaults are the eight listed, and it is from this configuration that the arguments of
  \<open>retrieveModel\<close>, the first thing \<open>loadModel\<close> does, are read.
\<close>

theorem loadModel_merges_options:
  "loadOptions env options key
     = (case options key of Some v \<Rightarrow> Some v | None \<Rightarrow> default_load_options env key)
   \<and> dom (default_load_options env)
       = {''modelPath'', ''librariesPath'', ''type'', ''allowDownload'', ''verbose'',
          ''device'', ''nCtx'', ''ngl''}
   \<and> default_load_options env ''modelPath'' = Some (JStr (DEFAULT_DIRECTORY env))
   \<and> default_load_options env ''librariesPath'' = Some (JStr (DEFAULT_LIBRARIES_DIRECTORY env))
   \<and> default_load_options env ''type'' = Some (JStr ''inference'')
   \<and> default_load_options env ''allowDownload'' = Some (JBool True)
   \<and> default_load_options env ''verbose'' = Some (JBool False)
   \<and> default_load_options env ''device'' = Some (JStr ''cpu'')
   \<and> default_load_options env ''nCtx'' = Some (JNum 2048)
   \<and> default_load_options env ''ngl'' = Some (JNum 100)
   \<and> (\<exists>rest. effects (loadModel env name options)
         = RetrieveModel name (retrieve_arguments (loadOptions env options)) # rest)"
proof -
  have "dom (default_load_options env)
       = {''modelPath'', ''librariesPath'', ''type'', ''allowDownload'', ''verbose'',
          ''device'', ''nCtx'', ''ngl''}"
    unfolding default_load_options_def by (simp only: dom_fun_upd dom_empty) auto
  moreover have "loadOptions env options key
     = (case options key of Some v \<Rightarrow> Some v | None \<Rightarrow> default_load_options env key)"
    by (simp add: loadOptions_def spread_lookup)
  ultimately show ?thesis
    using loadModel_first_effect [of env name options]
    by (simp add: default_load_options_def)
qed

text \<open>
  A caller that supplies \<open>nCtx\<close> and an explicit \<open>undefined\<close> for \<open>type\<close>: both win,
  the other keys keep their defaults.
\<close>

theorem loadModel_merges_options_witness:
  "loadOptions stub_environment [''nCtx'' \<mapsto> JNum 512, ''type'' \<mapsto> JUndefined] ''nCtx'' = Some (JNum 512)
   \<and> loadOptions stub_environment [''nCtx'' \<mapsto> JNum 512, ''type'' \<mapsto> JUndefined] ''type'' = Some JUndefined
   \<and> loadOptions stub_environment [''nCtx'' \<mapsto> JNum 512, ''type'' \<mapsto> JUndefined] ''ngl'' = Some (JNum 100)
   \<and> loadOptions stub_environment [''nCtx'' \<mapsto> JNum 512, ''type'' \<mapsto> JUndefined] ''modelPath''
       = Some (JStr ''/models'')"
  using loadModel_merges_options [where env = stub_environment
      and options = "[''nCtx'' \<mapsto> JNum 512, ''type'' \<mapsto> JUndefined]" and key = "''nCtx''"]
  by (simp add: load_defs)

text \<open>
  Claim C7 says that an unrecognised \<open>type\<close> makes \<open>loadModel\<close> reject with the
  invalid-type error without a native handle having been constructed. The type is tested
  after \<open>new LLModel(llmOptions)\<close>: with \<open>type = "chat"\<close> the handle is constructed
  and the error follows. And the error is the invalid-type one only when nothing failed
  before: where resolution fails, \<open>loadModel\<close> rejects with the resolver's error.
\<close>

theorem loadModel_model_type_counterexample:
  "constructed (effects (loadModel stub_environment ''m'' [''type'' \<mapsto> JStr ''chat''])) = [stub_handle]
   \<and> loaded (loadModel stub_environment ''m'' [''type'' \<mapsto> JStr ''chat''])
       = Rejected (Error ''Invalid model type: chat'')
   \<and> loaded (loadModel offline_environment ''m'' [''type'' \<mapsto> JStr ''chat''])
       = Rejected (Error ''offline'')"
  by (simp add: load_defs stub_handle_def)

text \<open>
  Claim C7, amended. \<open>loadModel\<close> looks at the type last. When resolution rejects,
  \<open>loadModel\<close> rejects with the resolver's error; when the model is resolved and
  \<open>librariesPath\<close> is not a string, with the assertion error; when it is a string, the
  native handle is constructed, and \<open>loadModel\<close> rejects with the constructor's error
  if the constructor throws. Only when the constructor has returned a handle does the
  type decide: a \<open>type\<close> given by the caller as a string other than \<open>inference\<close> and
  \<open>embedding\<close> makes \<open>loadModel\<close> reject with \<open>Error("Invalid model type: " + type)\<close>,
  the type \<open>embedding\<close> gives an \<open>EmbeddingModel\<close> around the handle and the type
  \<open>inference\<close> an \<open>InferenceModel\<close>.
\<close>

theorem loadModel_model_type:
  fixes env :: "('c, 'l) environment" and options :: js_object
  defines "lo \<equiv> loadOptions env options"
    and "retrieved \<equiv> (\<lambda>name. retrieveModel env name (retrieve_arguments (loadOptions env options)))"
  shows "(retrieved name = Rejected e \<longrightarrow> loaded (loadModel env name options) = Rejected e)
    \<and> (retrieved name = Fulfilled cfg \<and> (\<forall>lp. property lo ''librariesPath'' \<noteq> JStr lp) \<longrightarrow>
        loaded (loadModel env name options)
          = Rejected (AssertionError ''Libraries path should be a string''))
    \<and> (retrieved name = Fulfilled cfg \<and> property lo ''librariesPath'' = JStr lp \<longrightarrow>
        constructed (effects (loadModel env name options)) = [llmOptions env name lo lp]
        \<and> (LLModel env (llmOptions env name lo lp) = Inl e \<longrightarrow>
             loaded (loadModel env name options) = Rejected e)
        \<and> (LLModel env (llmOptions env name lo lp) = Inr handle \<longrightarrow>
             (options ''type'' = Some (JStr ty) \<and> ty \<noteq> ''inference'' \<and> ty \<noteq> ''embedding'' \<longrightarrow>
                loaded (loadModel env name options)
                  = Rejected (Error (''Invalid model type: '' @ ty)))
             \<and> (property lo ''type'' = JStr ''embedding'' \<longrightarrow>
                  loaded (loadModel env name options) = Fulfilled (EmbeddingModel handle cfg))
             \<and> (property lo ''type'' = JStr ''inference'' \<longrightarrow>
                  loaded (loadModel env name options) = Fulfilled (InferenceModel handle cfg))))"
proof -
  have ty: "property lo ''type'' = JStr ty"
    if "options ''type'' = Some (JStr ty)" for ty
    using that by (simp add: lo_def loadOptions_def spread_def property_def)
  have early: "(retrieved name = Rejected e \<longrightarrow> loaded (loadModel env name options) = Rejected e)
    \<and> (retrieved name = Fulfilled cfg \<and> (\<forall>lp. property lo ''librariesPath'' \<noteq> JStr lp) \<longrightarrow>
        loaded (loadModel env name options)
          = Rejected (AssertionError ''Libraries path should be a string''))"
    unfolding lo_def retrieved_def
    by (simp add: loadModel_def Let_def split: jsval.split)
  have late: "constructed (effects (loadModel env name options)) = [llmOptions env name lo lp]
        \<and> (LLModel env (llmOptions env name lo lp) = Inl e \<longrightarrow>
             loaded (loadModel env name options) = Rejected e)
        \<and> (LLModel env (llmOptions env name lo lp) = Inr handle \<longrightarrow>
             (options ''type'' = Some (JStr ty) \<and> ty \<noteq> ''inference'' \<and> ty \<noteq> ''embedding'' \<longrightarrow>
                loaded (loadModel env name options)
                  = Rejected (Error (''Invalid model type: '' @ ty)))
             \<and> (property lo ''type'' = JStr ''embedding'' \<longrightarrow>
                  loaded (loadModel env name options) = Fulfilled (EmbeddingModel handle cfg))
             \<and> (property lo ''type'' = JStr ''inference'' \<longrightarrow>
                  loaded (loadModel env name options) = Fulfilled (InferenceModel handle cfg)))"
    if "retrieved name = Fulfilled cfg \<and> property lo ''librariesPath'' = JStr lp"
    using that ty [of ty] unfolding lo_def retrieved_def
    by (auto simp: loadModel_def Let_def split: sum.split)
  from early late show ?thesis by blast
qed

text \<open>
  The types \<open>chat\<close>, \<open>embedding\<close> and the default in the stub environment, and the
  type \<open>chat\<close> with a resolver that fails, a path that is no string and a constructor
  that throws.
\<close>

theorem loadModel_model_type_witness:
  "retrieveModel stub_environment ''m''
       (retrieve_arguments (loadOptions stub_environment [''type'' \<mapsto> JStr ''chat'']))
     = Fulfilled ''config''
   \<and> property (loadOptions stub_environment [''type'' \<mapsto> JStr ''chat'']) ''librariesPath''
     = JStr ''/lib;/opt/lib''
   \<and> LLModel stub_environment
       (llmOptions stub_environment ''m''
          (loadOptions stub_environment [''type'' \<mapsto> JStr ''chat'']) ''/lib;/opt/lib'')
     = Inr stub_handle
   \<and> loaded (loadModel stub_environment ''m'' [''type'' \<mapsto> JStr ''chat''])
     = Rejected (Error ''Invalid model type: chat'')
   \<and> constructed (effects (loadModel stub_environment ''m'' [''type'' \<mapsto> JStr ''chat'']))
     = [stub_handle]
   \<and> loaded (loadModel stub_environment ''m'' [''type'' \<mapsto> JStr ''embedding''])
     = Fulfilled (EmbeddingModel stub_handle ''config'')
   \<and> loaded (loadModel stub_environment ''m'' Map.empty)
     = Fulfilled (InferenceModel stub_handle ''config'')
   \<and> loaded (loadModel offline_environment ''m'' [''type'' \<mapsto> JStr ''chat''])
     = Rejected (Error ''offline'')
   \<and> loaded (loadModel stub_environment ''m''
        [''type'' \<mapsto> JStr ''chat'', ''librariesPath'' \<mapsto> JNum 5])
     = Rejected (AssertionError ''Libraries path should be a string'')
   \<and> loaded (loadModel broken_environment ''m'' [''type'' \<mapsto> JStr ''chat''])
     = Rejected (Error ''no backend'')"
  using loadModel_model_type [where env = stub_environment and name = "''m''"
      and options = "[''type'' \<mapsto> JStr ''chat'']" and cfg = "''config''" and lp = "''/lib;/opt/lib''"
      and handle = stub_handle and ty = "''chat''"]
   loadModel_model_type [where env = stub_environment and name = "''m''"
      and options = "[''type'' \<mapsto> JStr ''embedding'']" and cfg = "''config''" and lp = "''/lib;/opt/lib''"
      and handle = stub_handle]
   loadModel_model_type [where env = stub_environment and name = "''m''"
      and options = "Map.empty" and cfg = "''config''" and lp = "''/lib;/opt/lib''"
      and handle = stub_handle]
   loadModel_model_type [where env = offline_environment and name = "''m''"
      and options = "[''type'' \<mapsto> JStr ''chat'']" and e = "Error ''offline''"]
   loadModel_model_type [where env = stub_environment and name = "''m''"
      and options = "[''type'' \<mapsto> JStr ''chat'', ''librariesPath'' \<mapsto> JNum 5]" and cfg = "''config''"]
   loadModel_model_type [where env = broken_environment and name = "''m''"
      and options = "[''type'' \<mapsto> JStr ''chat'']" and cfg = "''config''" and lp = "''/lib;/opt/lib''"
      and e = "Error ''no backend''"]
  by (simp add: load_defs stub_handle_def)

text \<open>
  Claim C9 says that a \<open>librariesPath\<close> that is not a string makes \<open>loadModel\<close> fail
  before any model resolution. The assertion stands after \<open>await retrieveModel(...)\<close>:
  with \<open>librariesPath = 5\<close> the model is resolved first, and where resolution fails
  \<open>loadModel\<close> rejects with the resolver's error, not with the assertion's.
\<close>

theorem loadModel_libraries_path_counterexample:
  "effects (loadModel stub_environment ''m'' [''librariesPath'' \<mapsto> JNum 5])
     = [RetrieveModel ''m''
          \<lparr>modelPath = JStr ''/models'', modelConfigFile = JUndefined,
           allowDownload = JBool True, verbose = JBool False\<rparr>]
   \<and> loaded (loadModel offline_environment ''m'' [''librariesPath'' \<mapsto> JNum 5])
       = Rejected (Error ''offline'')"
  by (simp add: load_defs)

text \<open>
  Claim C9, amended. When \<open>librariesPath\<close> is not a string, \<open>loadModel\<close> constructs
  no native handle; it rejects with the assertion error \<open>Libraries path should be a
  string\<close> once the model has been resolved, and with the resolver's error when
  resolution fails. When \<open>librariesPath\<close> is a string and the model has been resolved,
  the one handle constructed gets as \<open>library_path\<close> the entries of the path split at
  \<open>;\<close> that exist, joined with \<open>;\<close>.
\<close>

theorem loadModel_libraries_path:
  fixes env :: "('c, 'l) environment"
  defines "retrieved \<equiv> (\<lambda>name options.
      retrieveModel env name (retrieve_arguments (loadOptions env options)))"
  shows "((\<forall>lp. property (loadOptions env options) ''librariesPath'' \<noteq> JStr lp) \<longrightarrow>
       constructed (effects (loadModel env name options)) = []
       \<and> (retrieved name options = Fulfilled cfg \<longrightarrow>
            loaded (loadModel env name options)
              = Rejected (AssertionError ''Libraries path should be a string''))
       \<and> (retrieved name options = Rejected e \<longrightarrow>
            loaded (loadModel env name options) = Rejected e))
   \<and> (property (loadOptions env options) ''librariesPath'' = JStr lp
        \<and> retrieved name options = Fulfilled cfg \<longrightarrow>
       map library_path (constructed (effects (loadModel env name options)))
         = [js_join '';'' (filter (existsSync env) (js_split CHR '';'' lp))])"
  unfolding retrieved_def
  using loadModel_bad_path [of env options name cfg e] loadModel_good_path [of env options lp name cfg]
  by (simp add: llmOptions_def existingPaths_def)

text \<open>
  The path \<open>5\<close> with and without a resolvable model, and the path
  \<open>/x;/lib;;/lib\<close> where only \<open>/lib\<close> exists.
\<close>

theorem loadModel_libraries_path_witness:
  "property (loadOptions stub_environment [''librariesPath'' \<mapsto> JNum 5]) ''librariesPath'' = JNum 5
   \<and> retrieveModel stub_environment ''m''
         (retrieve_arguments (loadOptions stub_environment [''librariesPath'' \<mapsto> JNum 5]))
       = Fulfilled ''config''
   \<and> retrieveModel offline_environment ''m''
         (retrieve_arguments (loadOptions offline_environment [''librariesPath'' \<mapsto> JNum 5]))
       = Rejected (Error ''offline'')
   \<and> property (loadOptions stub_environment [''librariesPath'' \<mapsto> JStr ''/x;/lib;;/lib''])
         ''librariesPath'' = JStr ''/x;/lib;;/lib''
   \<and> constructed (effects (loadModel stub_environment ''m'' [''librariesPath'' \<mapsto> JNum 5])) = []
   \<and> loaded (loadModel stub_environment ''m'' [''librariesPath'' \<mapsto> JNum 5])
       = Rejected (AssertionError ''Libraries path should be a string'')
   \<and> loaded (loadModel offline_environment ''m'' [''librariesPath'' \<mapsto> JNum 5])
       = Rejected (Error ''offline'')
   \<and> map library_path (constructed (effects
         (loadModel stub_environment ''m'' [''librariesPath'' \<mapsto> JStr ''/x;/lib;;/lib''])))
       = [''/lib;/lib'']"
  using loadModel_libraries_path [where env = stub_environment and name = "''m''"
      and options = "[''librariesPath'' \<mapsto> JNum 5]" and cfg = "''config''" and e = "Error ''offline''"]
    loadModel_libraries_path [where env = offline_environment and name = "''m''"
      and options = "[''librariesPath'' \<mapsto> JNum 5]" and cfg = "''config''" and e = "Error ''offline''"]
    loadModel_libraries_path [where env = stub_environment and name = "''m''"
      and options = "[''librariesPath'' \<mapsto> JStr ''/x;/lib;;/lib'']" and cfg = "''config''"
      and lp = "''/x;/lib;;/lib''"]
  by (simp add: load_defs)

end
